theory Spec2Isabelle
  imports Complex_Main "HOL-Library.Word" "HOL-Library.Multiset" "HOL-Library.Sublist"
begin

section \<open>JavaScript values as the extension sees them\<close>

text \<open>
  A JavaScript string is a sequence of 16-bit code units: \<open>length\<close> and
  \<open>substring\<close> count code units. String literals of the source are ASCII and are
  written \<open>lit ''...''\<close>.
\<close>

type_synonym jsstring = "16 word list"

definition lit :: "string \<Rightarrow> jsstring" where
  "lit s = map (\<lambda>c. of_nat (of_char c)) s"

definition quote :: "16 word" where
  "quote = 0x22"

text \<open>
  Numbers are represented by their integer values, functions and objects by a
  reference. What the code observes of a function or object (its conversion to a
  string, its \<open>tagName\<close> property) is supplied by the host, see below.
\<close>

datatype jsval =
    JUndefined
  | JNull
  | JBool bool
  | JNum int
  | JStr jsstring
  | JFunc nat
  | JObj nat

fun truthy :: "jsval \<Rightarrow> bool" where
  "truthy JUndefined = False"
| "truthy JNull = False"
| "truthy (JBool b) = b"
| "truthy (JNum n) = (n \<noteq> 0)"
| "truthy (JStr s) = (s \<noteq> [])"
| "truthy (JFunc f) = True"
| "truthy (JObj r) = True"

fun typeof_string :: "jsval \<Rightarrow> bool" where
  "typeof_string (JStr s) = True"
| "typeof_string v = False"

datatype abrupt = TypeError | Thrown jsval

section \<open>Evidence records\<close>

text \<open>
  The location object literals of the content script carry \<open>url\<close> and, depending
  on the call site, \<open>selector\<close>, \<open>index\<close>, \<open>length\<close> and \<open>position\<close>.
  A property that the literal does not mention is \<open>None\<close>.
\<close>

record location =
  loc_url :: jsstring
  loc_selector :: "jsval option"
  loc_index :: "nat option"
  loc_length :: "nat option"
  loc_position :: "jsval option"

datatype locarg = LocPrim jsval | LocObj location

fun loc_truthy :: "locarg \<Rightarrow> bool" where
  "loc_truthy (LocPrim v) = truthy v"
| "loc_truthy (LocObj l) = True"

record evidence =
  ev_id :: nat
  ev_time :: jsstring
  ev_type :: jsstring
  ev_severity :: jsstring
  ev_location :: locarg
  ev_snippet :: jsstring
  ev_stack :: jsval

section \<open>The host environment and the page state of the content script\<close>

text \<open>
  The operations the content script intercepts, named after the property that is
  replaced: \<open>window.eval\<close>, \<open>window.Function\<close>, \<open>document.write\<close>,
  \<open>document.writeln\<close>, \<open>window.setTimeout\<close>, \<open>window.setInterval\<close>, the
  \<open>innerHTML\<close> and \<open>outerHTML\<close> setters of \<open>Element.prototype\<close> and
  \<open>Element.prototype.insertAdjacentHTML\<close>.
\<close>

datatype sink =
    Eval
  | FunctionCtor
  | DocumentWrite
  | DocumentWriteln
  | SetTimeout
  | SetInterval
  | InnerHTML
  | OuterHTML
  | InsertAdjacentHTML

text \<open>
  What the browser provides. \<open>'w\<close> is the state of the page outside the content
  script. \<open>native\<close> is the behaviour of the original operations: called with a
  \<open>this\<close> value and an argument list it returns a value or throws, and changes the
  page; code that it runs and that calls a sink again is a call of its own. \<open>String_host\<close> is \<open>String(v)\<close> for numbers, functions and objects (an object's
  \<open>toString\<close> may throw); \<open>tagName_of\<close> reads the \<open>tagName\<close> property of a
  \<open>this\<close> value; \<open>toLowerCase\<close> is \<open>String.prototype.toLowerCase\<close>;
  \<open>window_ref\<close> is the reference of the global object \<open>window\<close>, and \<open>box_ref v\<close>
  the reference of the wrapper object that holds the primitive value \<open>v\<close>.
\<close>

record 'w host =
  location_href :: "'w \<Rightarrow> jsstring"
  date_now :: "'w \<Rightarrow> jsstring"
  error_stack :: "'w \<Rightarrow> jsval"
  String_host :: "jsval \<Rightarrow> abrupt + jsstring"
  tagName_of :: "jsval \<Rightarrow> jsval"
  toLowerCase :: "jsstring \<Rightarrow> jsstring"
  window_ref :: nat
  box_ref :: "jsval \<Rightarrow> nat"
  native :: "sink \<Rightarrow> jsval \<Rightarrow> jsval list \<Rightarrow> 'w \<Rightarrow> (abrupt + jsval) \<times> 'w"

text \<open>
  The function currently installed at a sink: the browser's own (\<open>Native\<close>), or a
  wrapper closure of \<open>hookRuntimeSinks\<close> that captured the function installed before
  it (\<open>Hook prev\<close>). \<open>Absent\<close> is a property descriptor that does not exist or has
  no setter.
\<close>

datatype impl = Absent | Native | Hook impl

text \<open>
  The module state \<open>evidenceList\<close> and \<open>evidenceIdCounter\<close>, the functions
  installed at the sinks, whether \<open>collectStaticSignals\<close> is registered for
  \<open>DOMContentLoaded\<close>, and the page. \<open>nativeCalls\<close> logs every invocation of an
  original operation with its \<open>this\<close> value and arguments. The counter is a
  JavaScript number; it counts exactly up to \<open>2^53\<close>, which is more than the
  \<open>2^32 - 1\<close> elements an array can hold, and is a natural number here.
\<close>

record 'w page =
  evidenceList :: "evidence list"
  evidenceIdCounter :: nat
  sinks :: "sink \<Rightarrow> impl"
  pendingScan :: bool
  world :: 'w
  nativeCalls :: "(sink \<times> jsval \<times> jsval list) list"

definition fresh :: "'w \<Rightarrow> 'w page" where
  "fresh w = \<lparr>evidenceList = [], evidenceIdCounter = 0, sinks = (\<lambda>s. Native),
              pendingScan = False, world = w, nativeCalls = []\<rparr>"

section \<open>addEvidence\<close>

text \<open>
  The object literal is evaluated field by field: the counter is incremented first, so
  it stays incremented when \<open>snippet.substring\<close> throws for a truthy snippet that is not
  a string (numbers, booleans, functions and plain objects have no \<open>substring\<close>).
  The default parameter \<open>stack = null\<close> applies when the argument is \<open>undefined\<close>.
\<close>

definition default_location :: "'w host \<Rightarrow> 'w page \<Rightarrow> locarg" where
  "default_location h st =
     LocObj \<lparr>loc_url = location_href h (world st), loc_selector = Some JNull,
             loc_index = None, loc_length = None, loc_position = None\<rparr>"

definition snippet_text :: "jsval \<Rightarrow> abrupt + jsstring" where
  "snippet_text snippet =
     (if truthy snippet
      then (case snippet of JStr s \<Rightarrow> Inr (take 200 s) | _ \<Rightarrow> Inl TypeError)
      else Inr [])"

definition addEvidence ::
  "'w host \<Rightarrow> jsstring \<Rightarrow> jsstring \<Rightarrow> jsval \<Rightarrow> locarg \<Rightarrow> jsval \<Rightarrow> 'w page
     \<Rightarrow> (abrupt + evidence) \<times> 'w page" where
  "addEvidence h type severity snippet location stack0 st =
     (let stack = (if stack0 = JUndefined then JNull else stack0);
          st1 = st\<lparr>evidenceIdCounter := evidenceIdCounter st + 1\<rparr>
      in case snippet_text snippet of
           Inl e \<Rightarrow> (Inl e, st1)
         | Inr text \<Rightarrow>
             let evidence =
                   \<lparr>ev_id = evidenceIdCounter st1,
                    ev_time = date_now h (world st),
                    ev_type = type,
                    ev_severity = severity,
                    ev_location = (if loc_truthy location then location
                                   else default_location h st),
                    ev_snippet = text,
                    ev_stack = stack\<rparr>
             in (Inr evidence, st1\<lparr>evidenceList := evidenceList st1 @ [evidence]\<rparr>))"

text \<open>A statement that calls \<open>addEvidence\<close> and drops the record it returns.\<close>

definition addEvidence_stmt ::
  "'w host \<Rightarrow> jsstring \<Rightarrow> jsstring \<Rightarrow> jsval \<Rightarrow> locarg \<Rightarrow> jsval \<Rightarrow> 'w page
     \<Rightarrow> (abrupt + unit) \<times> 'w page" where
  "addEvidence_stmt h type severity snippet location stack0 st =
     (case addEvidence h type severity snippet location stack0 st of
        (Inl e, st') \<Rightarrow> (Inl e, st')
      | (Inr ev, st') \<Rightarrow> (Inr (), st'))"

section \<open>collectStaticSignals\<close>

text \<open>
  An element as the scanner reads it: \<open>tagName\<close>, the attributes behind
  \<open>hasAttribute\<close> and \<open>getAttribute\<close>, the \<open>href\<close> property, \<open>textContent\<close> and
  \<open>innerText\<close> (a string, or \<open>undefined\<close> on elements that are not HTML elements,
  which is \<open>None\<close>). A document is given by the results of the three
  \<open>querySelectorAll\<close> calls and by whether \<open>readyState\<close> is \<open>'loading'\<close>.
\<close>

record element =
  tagName :: jsstring
  attributes :: "jsstring \<rightharpoonup> jsstring"
  href_prop :: jsval
  textContent :: jsstring
  innerText :: "jsstring option"

record document =
  readyState_loading :: bool
  allElements :: "element list"
  jsProtocolElements :: "element list"
  inlineScripts :: "element list"

definition hasAttribute :: "element \<Rightarrow> jsstring \<Rightarrow> bool" where
  "hasAttribute elem attr = (attributes elem attr \<noteq> None)"

definition getAttribute :: "element \<Rightarrow> jsstring \<Rightarrow> jsstring option" where
  "getAttribute elem attr = attributes elem attr"

text \<open>A value of \<open>getAttribute\<close> inside a template literal: \<open>null\<close> prints as \<open>null\<close>.\<close>

fun template_text :: "jsstring option \<Rightarrow> jsstring" where
  "template_text None = lit ''null''"
| "template_text (Some v) = v"

text \<open>
  \<open>forEach\<close> of arrays and node lists: the callback receives the item and its index;
  an exception thrown by a callback ends the loop.
\<close>

fun forEach_from ::
  "nat \<Rightarrow> ('a \<Rightarrow> nat \<Rightarrow> 's \<Rightarrow> (abrupt + unit) \<times> 's) \<Rightarrow> 'a list \<Rightarrow> 's \<Rightarrow> (abrupt + unit) \<times> 's" where
  "forEach_from i f [] st = (Inr (), st)"
| "forEach_from i f (x # xs) st =
     (case f x i st of
        (Inl e, st') \<Rightarrow> (Inl e, st')
      | (Inr u, st') \<Rightarrow> forEach_from (Suc i) f xs st')"

definition forEach ::
  "('a \<Rightarrow> nat \<Rightarrow> 's \<Rightarrow> (abrupt + unit) \<times> 's) \<Rightarrow> 'a list \<Rightarrow> 's \<Rightarrow> (abrupt + unit) \<times> 's" where
  "forEach f xs st = forEach_from 0 f xs st"

definition seq ::
  "('s \<Rightarrow> (abrupt + unit) \<times> 's) \<Rightarrow> ('s \<Rightarrow> (abrupt + unit) \<times> 's) \<Rightarrow> 's \<Rightarrow> (abrupt + unit) \<times> 's" where
  "seq m1 m2 st =
     (case m1 st of
        (Inl e, st') \<Rightarrow> (Inl e, st')
      | (Inr u, st') \<Rightarrow> m2 st')"

definition inlineEventAttrs :: "jsstring list" where
  "inlineEventAttrs =
     [lit ''onerror'', lit ''onclick'', lit ''onload'', lit ''onmouseover'', lit ''onmouseout'',
      lit ''onmouseenter'', lit ''onmouseleave'', lit ''onfocus'', lit ''onblur'', lit ''onchange'',
      lit ''onsubmit'', lit ''onkeydown'', lit ''onkeyup'', lit ''onkeypress'']"

text \<open>1. The body of the inner callback and the two nested loops over elements and attribute names.\<close>

definition checkInlineAttr ::
  "'w host \<Rightarrow> element \<Rightarrow> nat \<Rightarrow> jsstring \<Rightarrow> 'w page \<Rightarrow> (abrupt + unit) \<times> 'w page" where
  "checkInlineAttr h elem index attr st =
     (if hasAttribute elem attr
      then
        let val = getAttribute elem attr
        in addEvidence_stmt h (lit ''inline-event-handler'') (lit ''medium'')
             (JStr (attr @ lit ''='' @ [quote] @ template_text val @ [quote]))
             (LocObj \<lparr>loc_url = location_href h (world st),
                      loc_selector = Some (JStr (toLowerCase h (tagName elem) @ lit ''['' @ attr @ lit '']'')),
                      loc_index = Some index, loc_length = None, loc_position = None\<rparr>)
             JUndefined st
      else (Inr (), st))"

definition scanInlineHandlers :: "'w host \<Rightarrow> document \<Rightarrow> 'w page \<Rightarrow> (abrupt + unit) \<times> 'w page" where
  "scanInlineHandlers h doc =
     forEach (\<lambda>elem index. forEach (\<lambda>attr k. checkInlineAttr h elem index attr) inlineEventAttrs)
       (allElements doc)"

text \<open>2. Elements with a \<open>javascript:\<close> URL.\<close>

definition checkJsProtocol ::
  "'w host \<Rightarrow> element \<Rightarrow> nat \<Rightarrow> 'w page \<Rightarrow> (abrupt + unit) \<times> 'w page" where
  "checkJsProtocol h elem index st =
     (let attr = (if truthy (href_prop elem) then lit ''href'' else lit ''src'');
          val = getAttribute elem attr
      in addEvidence_stmt h (lit ''javascript-protocol'') (lit ''high'')
           (JStr (attr @ lit ''='' @ [quote] @ template_text val @ [quote]))
           (LocObj \<lparr>loc_url = location_href h (world st),
                    loc_selector = Some (JStr (toLowerCase h (tagName elem) @ lit ''['' @ attr
                                          @ lit ''^='' @ [quote] @ lit ''javascript:'' @ [quote] @ lit '']'')),
                    loc_index = Some index, loc_length = None, loc_position = None\<rparr>)
           JUndefined st)"

definition scanJsProtocol :: "'w host \<Rightarrow> document \<Rightarrow> 'w page \<Rightarrow> (abrupt + unit) \<times> 'w page" where
  "scanJsProtocol h doc = forEach (checkJsProtocol h) (jsProtocolElements doc)"

text \<open>
  3. Inline script blocks. \<open>trim\<close> removes the white space and line terminator
  code units of ECMAScript from both ends.
\<close>

definition is_space :: "16 word \<Rightarrow> bool" where
  "is_space c =
     (c \<in> set [0x9, 0xA, 0xB, 0xC, 0xD, 0x20, 0xA0, 0x1680,
               0x2000, 0x2001, 0x2002, 0x2003, 0x2004, 0x2005, 0x2006, 0x2007, 0x2008, 0x2009, 0x200A,
               0x2028, 0x2029, 0x202F, 0x205F, 0x3000, 0xFEFF])"

definition trim :: "jsstring \<Rightarrow> jsstring" where
  "trim s = rev (dropWhile is_space (rev (dropWhile is_space s)))"

definition checkInlineScript ::
  "'w host \<Rightarrow> element \<Rightarrow> nat \<Rightarrow> 'w page \<Rightarrow> (abrupt + unit) \<times> 'w page" where
  "checkInlineScript h script index st =
     (let content = (if textContent script \<noteq> [] then Some (textContent script)
                     else innerText script)
      in case content of
           None \<Rightarrow> (Inr (), st)
         | Some c \<Rightarrow>
             if c \<noteq> [] \<and> length (trim c) > 0
             then addEvidence_stmt h (lit ''inline-script'') (lit ''low'') (JStr c)
                    (LocObj \<lparr>loc_url = location_href h (world st),
                             loc_selector = Some (JStr (lit ''script:not([src])'')),
                             loc_index = Some index, loc_length = Some (length c),
                             loc_position = None\<rparr>)
                    JUndefined st
             else (Inr (), st))"

definition scanInlineScripts :: "'w host \<Rightarrow> document \<Rightarrow> 'w page \<Rightarrow> (abrupt + unit) \<times> 'w page" where
  "scanInlineScripts h doc = forEach (checkInlineScript h) (inlineScripts doc)"

definition collectStaticSignals :: "'w host \<Rightarrow> document \<Rightarrow> 'w page \<Rightarrow> (abrupt + unit) \<times> 'w page" where
  "collectStaticSignals h doc =
     seq (scanInlineHandlers h doc) (seq (scanJsProtocol h doc) (scanInlineScripts h doc))"

section \<open>hookRuntimeSinks\<close>

fun arg0 :: "jsval list \<Rightarrow> jsval" where
  "arg0 [] = JUndefined"
| "arg0 (v # vs) = v"

text \<open>\<open>String(v)\<close>.\<close>

fun String_js :: "'w host \<Rightarrow> jsval \<Rightarrow> abrupt + jsstring" where
  "String_js h (JStr s) = Inr s"
| "String_js h JUndefined = Inr (lit ''undefined'')"
| "String_js h JNull = Inr (lit ''null'')"
| "String_js h (JBool b) = Inr (if b then lit ''true'' else lit ''false'')"
| "String_js h v = String_host h v"

text \<open>\<open>this.tagName ? this.tagName.toLowerCase() : 'unknown'\<close>.\<close>

definition this_selector :: "'w host \<Rightarrow> jsval \<Rightarrow> abrupt + jsstring" where
  "this_selector h this =
     (let t = tagName_of h this
      in if truthy t
         then (case t of JStr s \<Rightarrow> Inr (toLowerCase h s) | _ \<Rightarrow> Inl TypeError)
         else Inr (lit ''unknown''))"

text \<open>
  The call of \<open>addEvidence\<close> inside a wrapper. Its arguments are evaluated from left
  to right: the snippet, then the location object, then \<open>new Error().stack\<close>; if one of
  them throws, \<open>addEvidence\<close> is not called.
\<close>

definition record_call ::
  "'w host \<Rightarrow> jsstring \<Rightarrow> jsstring \<Rightarrow> abrupt + jsstring \<Rightarrow> abrupt + location \<Rightarrow> 'w page
     \<Rightarrow> (abrupt + unit) \<times> 'w page" where
  "record_call h type severity snippet location st =
     (case snippet of
        Inl e \<Rightarrow> (Inl e, st)
      | Inr s \<Rightarrow>
          (case location of
             Inl e \<Rightarrow> (Inl e, st)
           | Inr l \<Rightarrow>
               addEvidence_stmt h type severity (JStr s) (LocObj l) (error_stack h (world st)) st))"

definition url_only :: "'w host \<Rightarrow> 'w page \<Rightarrow> location" where
  "url_only h st =
     \<lparr>loc_url = location_href h (world st), loc_selector = None, loc_index = None,
      loc_length = None, loc_position = None\<rparr>"

definition url_selector :: "'w host \<Rightarrow> jsval \<Rightarrow> jsval option \<Rightarrow> 'w page \<Rightarrow> abrupt + location" where
  "url_selector h this position st =
     (case this_selector h this of
        Inl e \<Rightarrow> Inl e
      | Inr sel \<Rightarrow>
          Inr \<lparr>loc_url = location_href h (world st), loc_selector = Some (JStr sel),
               loc_index = None, loc_length = None, loc_position = position\<rparr>)"

text \<open>
  The part of each wrapper that comes before the call of the original function, for
  the arguments \<open>args\<close> and the \<open>this\<close> value of the call.
\<close>

fun hook_record ::
  "'w host \<Rightarrow> sink \<Rightarrow> jsval \<Rightarrow> jsval list \<Rightarrow> 'w page \<Rightarrow> (abrupt + unit) \<times> 'w page" where
  "hook_record h Eval this args st =
     (let code = arg0 args
      in record_call h (lit ''eval-call'') (lit ''high'')
           (case code of JStr s \<Rightarrow> Inr s | _ \<Rightarrow> String_js h code)
           (Inr (url_only h st)) st)"
| "hook_record h FunctionCtor this args st =
     (let code = (if length args > 0 then last args else JStr [])
      in record_call h (lit ''function-constructor'') (lit ''high'')
           (String_js h code) (Inr (url_only h st)) st)"
| "hook_record h DocumentWrite this args st =
     record_call h (lit ''document-write'') (lit ''medium'')
       (String_js h (arg0 args)) (Inr (url_only h st)) st"
| "hook_record h DocumentWriteln this args st =
     record_call h (lit ''document-writeln'') (lit ''medium'')
       (String_js h (arg0 args)) (Inr (url_only h st)) st"
| "hook_record h SetTimeout this args st =
     (case arg0 args of
        JStr code \<Rightarrow>
          record_call h (lit ''settimeout-string'') (lit ''high'')
            (Inr code) (Inr (url_only h st)) st
      | _ \<Rightarrow> (Inr (), st))"
| "hook_record h SetInterval this args st =
     (case arg0 args of
        JStr code \<Rightarrow>
          record_call h (lit ''setinterval-string'') (lit ''high'')
            (Inr code) (Inr (url_only h st)) st
      | _ \<Rightarrow> (Inr (), st))"
| "hook_record h InnerHTML this args st =
     record_call h (lit ''innerhtml-set'') (lit ''medium'')
       (String_js h (arg0 args)) (url_selector h this None st) st"
| "hook_record h OuterHTML this args st =
     record_call h (lit ''outerhtml-set'') (lit ''medium'')
       (String_js h (arg0 args)) (url_selector h this None st) st"
| "hook_record h InsertAdjacentHTML this args st =
     record_call h (lit ''insertadjacenthtml'') (lit ''medium'')
       (String_js h (arg0 (tl args))) (url_selector h this (Some (arg0 args)) st) st"

text \<open>
  The arguments a wrapper hands to the function it captured: \<open>arguments\<close> for the
  wrappers that use \<open>apply(this, arguments)\<close>, the single parameter \<open>value\<close> for the
  two setters, which use \<open>call(this, value)\<close>.
\<close>

fun forwarded :: "sink \<Rightarrow> jsval list \<Rightarrow> jsval list" where
  "forwarded InnerHTML args = [arg0 args]"
| "forwarded OuterHTML args = [arg0 args]"
| "forwarded s args = args"

fun is_setter :: "sink \<Rightarrow> bool" where
  "is_setter InnerHTML = True"
| "is_setter OuterHTML = True"
| "is_setter s = False"

text \<open>
  The content script is not in strict mode and its wrappers are ordinary functions, so
  inside a wrapper \<open>this\<close> is never a primitive: when the caller's \<open>this\<close> value is
  \<open>undefined\<close> or \<open>null\<close> (a bare call \<open>eval(code)\<close> or \<open>setTimeout(f, 0)\<close>) it
  is the global object, and a primitive value is replaced by its wrapper object.
\<close>

fun sloppy_this :: "'w host \<Rightarrow> jsval \<Rightarrow> jsval" where
  "sloppy_this h JUndefined = JObj (window_ref h)"
| "sloppy_this h JNull = JObj (window_ref h)"
| "sloppy_this h (JBool b) = JObj (box_ref h (JBool b))"
| "sloppy_this h (JNum n) = JObj (box_ref h (JNum n))"
| "sloppy_this h (JStr s) = JObj (box_ref h (JStr s))"
| "sloppy_this h (JFunc f) = JFunc f"
| "sloppy_this h (JObj r) = JObj r"

text \<open>
  Calling the function installed at a sink with the \<open>this\<close> value and the arguments
  of the caller. The browser's function receives them as they are. A wrapper sees the
  \<open>this\<close> value of a non-strict function, records, and then calls the function it
  captured with \<open>apply(this, arguments)\<close> or \<open>call(this, value)\<close>; calling a captured
  function that does not exist throws. Assigning to a property without a setter
  leaves the collector untouched.
\<close>

fun invoke ::
  "'w host \<Rightarrow> impl \<Rightarrow> sink \<Rightarrow> jsval \<Rightarrow> jsval list \<Rightarrow> 'w page \<Rightarrow> (abrupt + jsval) \<times> 'w page" where
  "invoke h Absent s this args st =
     (if is_setter s then (Inr JUndefined, st) else (Inl TypeError, st))"
| "invoke h Native s this args st =
     (case native h s this args (world st) of
        (r, w') \<Rightarrow> (r, st\<lparr>world := w', nativeCalls := nativeCalls st @ [(s, this, args)]\<rparr>))"
| "invoke h (Hook prev) s this args st =
     (let this' = sloppy_this h this
      in case hook_record h s this' args st of
           (Inl e, st') \<Rightarrow> (Inl e, st')
         | (Inr u, st') \<Rightarrow> invoke h prev s this' (forwarded s args) st')"

text \<open>A call by the page of whatever is installed at sink \<open>s\<close>.\<close>

definition call_sink ::
  "'w host \<Rightarrow> sink \<Rightarrow> jsval \<Rightarrow> jsval list \<Rightarrow> 'w page \<Rightarrow> (abrupt + jsval) \<times> 'w page" where
  "call_sink h s this args st = invoke h (sinks st s) s this args st"

text \<open>
  \<open>hookRuntimeSinks\<close> reads the functions that are installed when it runs and replaces
  each by a wrapper around it; the two setters are replaced only if the property
  descriptor exists and has a setter.
\<close>

definition hookRuntimeSinks :: "'w page \<Rightarrow> 'w page" where
  "hookRuntimeSinks st =
     (let originalEval = sinks st Eval;
          originalFunction = sinks st FunctionCtor;
          originalDocumentWrite = sinks st DocumentWrite;
          originalDocumentWriteln = sinks st DocumentWriteln;
          originalSetTimeout = sinks st SetTimeout;
          originalSetInterval = sinks st SetInterval;
          st1 = st\<lparr>sinks := (sinks st)
                  (Eval := Hook originalEval,
                   FunctionCtor := Hook originalFunction,
                   DocumentWrite := Hook originalDocumentWrite,
                   DocumentWriteln := Hook originalDocumentWriteln,
                   SetTimeout := Hook originalSetTimeout,
                   SetInterval := Hook originalSetInterval)\<rparr>;
          originalInnerHTMLDesc = sinks st1 InnerHTML;
          originalOuterHTMLDesc = sinks st1 OuterHTML;
          st2 = (if originalInnerHTMLDesc \<noteq> Absent
                 then st1\<lparr>sinks := (sinks st1)(InnerHTML := Hook originalInnerHTMLDesc)\<rparr>
                 else st1);
          st3 = (if originalOuterHTMLDesc \<noteq> Absent
                 then st2\<lparr>sinks := (sinks st2)(OuterHTML := Hook originalOuterHTMLDesc)\<rparr>
                 else st2);
          originalInsertAdjacentHTML = sinks st3 InsertAdjacentHTML
      in st3\<lparr>sinks := (sinks st3)(InsertAdjacentHTML := Hook originalInsertAdjacentHTML)\<rparr>)"

section \<open>initialize and the life of a page session\<close>

definition initialize :: "'w host \<Rightarrow> document \<Rightarrow> 'w page \<Rightarrow> (abrupt + unit) \<times> 'w page" where
  "initialize h doc st =
     (case (if readyState_loading doc
            then (Inr (), st\<lparr>pendingScan := True\<rparr>)
            else collectStaticSignals h doc st) of
        (Inl e, st') \<Rightarrow> (Inl e, st')
      | (Inr u, st') \<Rightarrow> (Inr (), hookRuntimeSinks st'))"

definition domContentLoaded :: "'w host \<Rightarrow> document \<Rightarrow> 'w page \<Rightarrow> (abrupt + unit) \<times> 'w page" where
  "domContentLoaded h doc st =
     (if pendingScan st then collectStaticSignals h doc (st\<lparr>pendingScan := False\<rparr>)
      else (Inr (), st))"

text \<open>
  What can happen during a page session after the script has been loaded: the page
  calls a sink, the document finishes loading, \<open>addEvidence\<close>, \<open>collectStaticSignals\<close>
  or \<open>hookRuntimeSinks\<close> runs. An exception ends the step in which it is thrown; the
  session goes on with the state the step has reached.
\<close>

datatype action =
    CallSink sink jsval "jsval list"
  | DomContentLoaded document
  | AddEvidence jsstring jsstring jsval locarg jsval
  | CollectStaticSignals document
  | HookRuntimeSinks

fun step :: "'w host \<Rightarrow> action \<Rightarrow> 'w page \<Rightarrow> 'w page" where
  "step h (CallSink s this args) st = snd (call_sink h s this args st)"
| "step h (DomContentLoaded doc) st = snd (domContentLoaded h doc st)"
| "step h (AddEvidence type severity snippet location stack0) st =
     snd (addEvidence h type severity snippet location stack0 st)"
| "step h (CollectStaticSignals doc) st = snd (collectStaticSignals h doc st)"
| "step h HookRuntimeSinks st = hookRuntimeSinks st"

definition session :: "'w host \<Rightarrow> document \<Rightarrow> action list \<Rightarrow> 'w \<Rightarrow> 'w page" where
  "session h doc acts w = foldl (\<lambda>st a. step h a st) (snd (initialize h doc (fresh w))) acts"

section \<open>Popup: the quick risk heuristic\<close>

text \<open>
  The decimal text of an integer, which is what string concatenation makes of a
  number (for numbers below \<open>10^21\<close>; the scores stay far below).
\<close>

function decimal_nat :: "nat \<Rightarrow> jsstring" where
  "decimal_nat n =
     (if n < 10 then [of_nat (48 + n)]
      else decimal_nat (n div 10) @ [of_nat (48 + n mod 10)])"
  by pat_completeness auto
termination
  by (relation "measure (\<lambda>n. n)") auto

definition Number_toString :: "int \<Rightarrow> jsstring" where
  "Number_toString n =
     (if n < 0 then lit ''-'' @ decimal_nat (nat (- n)) else decimal_nat (nat n))"

text \<open>
  \<open>severityWeights\<close> is the object literal \<open>{ high: 10, medium: 5, low: 2 }\<close>. The
  lookup \<open>severityWeights[item.severity]\<close> finds the three own properties and, along
  the prototype chain, the properties of \<open>Object.prototype\<close>: built-in functions, and
  for \<open>__proto__\<close> the prototype object itself. These values are truthy, so \<open>|| 0\<close>
  keeps them, and \<open>score +=\<close> with a function or object concatenates strings.
  \<open>Object_prototype\<close> lists the inherited property names with the text that the
  string conversion of their value gives. Any other key yields \<open>undefined\<close>, which
  \<open>|| 0\<close> turns into 0.
\<close>

definition severityWeights :: "(jsstring \<times> int) list" where
  "severityWeights = [(lit ''high'', 10), (lit ''medium'', 5), (lit ''low'', 2)]"

definition Object_prototype :: "(jsstring \<times> jsstring) list" where
  "Object_prototype =
     [(lit ''constructor'', lit ''function Object() { [native code] }''),
      (lit ''__defineGetter__'', lit ''function __defineGetter__() { [native code] }''),
      (lit ''__defineSetter__'', lit ''function __defineSetter__() { [native code] }''),
      (lit ''hasOwnProperty'', lit ''function hasOwnProperty() { [native code] }''),
      (lit ''__lookupGetter__'', lit ''function __lookupGetter__() { [native code] }''),
      (lit ''__lookupSetter__'', lit ''function __lookupSetter__() { [native code] }''),
      (lit ''isPrototypeOf'', lit ''function isPrototypeOf() { [native code] }''),
      (lit ''propertyIsEnumerable'', lit ''function propertyIsEnumerable() { [native code] }''),
      (lit ''toString'', lit ''function toString() { [native code] }''),
      (lit ''valueOf'', lit ''function valueOf() { [native code] }''),
      (lit ''__proto__'', lit ''[object Object]''),
      (lit ''toLocaleString'', lit ''function toLocaleString() { [native code] }'')]"

text \<open>
  The value of \<open>severityWeights[item.severity] || 0\<close>: a number, or an inherited
  function or object, given by the text of its string conversion.
\<close>

datatype operand = Number int | ObjectText jsstring

definition weight_or_zero :: "jsstring \<Rightarrow> operand" where
  "weight_or_zero sev =
     (case map_of severityWeights sev of
        Some w \<Rightarrow> Number (if w \<noteq> 0 then w else 0)
      | None \<Rightarrow>
          (case map_of Object_prototype sev of
             Some t \<Rightarrow> ObjectText t
           | None \<Rightarrow> Number 0))"

text \<open>
  The variable \<open>score\<close> holds a number until a function or object is added to it and
  a string from then on. \<open>score += v\<close> adds numbers and concatenates otherwise.
\<close>

datatype jsscore = NumScore int | TextScore jsstring

fun plus_assign :: "jsscore \<Rightarrow> operand \<Rightarrow> jsscore" where
  "plus_assign (NumScore a) (Number w) = NumScore (a + w)"
| "plus_assign (NumScore a) (ObjectText t) = TextScore (Number_toString a @ t)"
| "plus_assign (TextScore s) (Number w) = TextScore (s @ Number_toString w)"
| "plus_assign (TextScore s) (ObjectText t) = TextScore (s @ t)"

text \<open>
  \<open>score >= n\<close>. A string score contains the text of a function or object, so its
  conversion to a number is \<open>NaN\<close> and the comparison is false.
\<close>

fun at_least :: "jsscore \<Rightarrow> int \<Rightarrow> bool" where
  "at_least (NumScore a) n = (a \<ge> n)"
| "at_least (TextScore s) n = False"

text \<open>
  \<open>calculateRiskLevel\<close> of the popup script. The argument is \<open>None\<close> when the
  caller passes \<open>null\<close> or \<open>undefined\<close>.
\<close>

record risk =
  level :: jsstring
  score :: jsscore

definition calculateRiskLevel :: "evidence list option \<Rightarrow> risk" where
  "calculateRiskLevel evidence =
     (case evidence of
        None \<Rightarrow> \<lparr>level = lit ''low'', score = NumScore 0\<rparr>
      | Some items \<Rightarrow>
          if length items = 0 then \<lparr>level = lit ''low'', score = NumScore 0\<rparr>
          else
            let score = foldl (\<lambda>score item. plus_assign score (weight_or_zero (ev_severity item)))
                          (NumScore 0) items;
                level = (if at_least score 50 then lit ''high''
                         else if at_least score 20 then lit ''medium''
                         else lit ''low'')
            in \<lparr>level = level, score = score\<rparr>)"

section \<open>The scoring engine of the analysis service\<close>

text \<open>
  Modelled from the spec: the per-record base weight of the service-side heuristic
  (high=15, medium=8, low=3). The service that computes it is not among the
  sources.
\<close>

definition service_base_weight :: "jsstring \<Rightarrow> int" where
  "service_base_weight sev =
     (if sev = lit ''high'' then 15
      else if sev = lit ''medium'' then 8
      else if sev = lit ''low'' then 3
      else 0)"

text \<open>
  Modelled from the spec: the sum of the weighted and multiplied contributions of all
  records. The table of per-type multipliers of the service is not among the sources
  and is the parameter \<open>multiplier\<close>.
\<close>

definition service_total :: "(jsstring \<Rightarrow> rat) \<Rightarrow> evidence list \<Rightarrow> rat" where
  "service_total multiplier items =
     sum_list (map (\<lambda>e. of_int (service_base_weight (ev_severity e)) * multiplier (ev_type e)) items)"

text \<open>
  Modelled from the spec: the sum is clamped into the closed range from 0 to 100 and
  the score is an integer. The scoring function of the service is not among the
  sources; malformed input is \<open>None\<close> and scores 0.
\<close>

definition service_score :: "(jsstring \<Rightarrow> rat) \<Rightarrow> evidence list option \<Rightarrow> int" where
  "service_score multiplier evidence =
     (case evidence of
        None \<Rightarrow> 0
      | Some items \<Rightarrow> max 0 (min 100 (floor (service_total multiplier items))))"

text \<open>
  Modelled from the spec: the five verdict labels of the service, which is not among
  the sources.
\<close>

datatype verdict = Safe | LowRisk | MediumRisk | HighRisk | Critical

text \<open>
  Modelled from the spec: the verdict thresholds of the service, which is not among the
  sources: 0 to 9 is Safe, 10 to 29 Low Risk, 30 to 59 Medium Risk, 60 to 79 High Risk,
  80 to 100 Critical.
\<close>

definition service_verdict :: "int \<Rightarrow> verdict" where
  "service_verdict n =
     (if n \<le> 9 then Safe
      else if n \<le> 29 then LowRisk
      else if n \<le> 59 then MediumRisk
      else if n \<le> 79 then HighRisk
      else Critical)"

text \<open>
  Modelled from the spec: the explanation lines of the service, which is not among the
  sources, are keyed to patterns and generated from counts.
\<close>

datatype explanation = HighSeverityItems nat | DynamicCodeExecution

text \<open>
  Modelled from the spec: the explanation of the service, which is not among the
  sources, has a line with the number of high-severity items when there are any, and
  a line for dynamic code execution when a record of an evaluator or
  function-constructor call is present.
\<close>

definition service_explanation :: "evidence list \<Rightarrow> explanation list" where
  "service_explanation items =
     (let n = length (filter (\<lambda>e. ev_severity e = lit ''high'') items)
      in (if n > 0 then [HighSeverityItems n] else [])
         @ (if list_ex (\<lambda>e. ev_type e = lit ''eval-call'' \<or> ev_type e = lit ''function-constructor'') items
            then [DynamicCodeExecution] else []))"

text \<open>
  Modelled from the spec: the supporting evidence of the service, which is not among
  the sources, is the high-severity subset of the input in its original order, each
  record reduced to type, severity and snippet.
\<close>

definition service_supporting :: "evidence list \<Rightarrow> (jsstring \<times> jsstring \<times> jsstring) list" where
  "service_supporting items =
     map (\<lambda>e. (ev_type e, ev_severity e, ev_snippet e))
       (filter (\<lambda>e. ev_severity e = lit ''high'') items)"

text \<open>
  Modelled from the spec: the aggregate report of the service, which is not among the
  sources, with its score, verdict, explanation and supporting evidence.
\<close>

record report =
  risk_score :: int
  report_verdict :: verdict
  report_explanation :: "explanation list"
  supporting_evidence :: "(jsstring \<times> jsstring \<times> jsstring) list"

text \<open>
  Modelled from the spec: the scoring engine of the service, which is not among the
  sources. Malformed input (\<open>None\<close>) is reported like empty evidence.
\<close>

definition service_analyze :: "(jsstring \<Rightarrow> rat) \<Rightarrow> evidence list option \<Rightarrow> report" where
  "service_analyze multiplier evidence =
     (let items = (case evidence of None \<Rightarrow> [] | Some xs \<Rightarrow> xs)
      in \<lparr>risk_score = service_score multiplier evidence,
          report_verdict = service_verdict (service_score multiplier evidence),
          report_explanation = service_explanation items,
          supporting_evidence = service_supporting items\<rparr>)"

section \<open>Auxiliary definitions used in the statements\<close>

text \<open>
  The severities of the data model, the weight of the popup heuristic for each of
  them, the sum of these weights over a list of records, and the level bands.
\<close>

definition known_severity :: "jsstring \<Rightarrow> bool" where
  "known_severity sev = (sev = lit ''high'' \<or> sev = lit ''medium'' \<or> sev = lit ''low'')"

definition quick_weight :: "jsstring \<Rightarrow> int" where
  "quick_weight sev =
     (if sev = lit ''high'' then 10 else if sev = lit ''medium'' then 5
      else if sev = lit ''low'' then 2 else 0)"

definition quick_score :: "evidence list \<Rightarrow> int" where
  "quick_score items = sum_list (map (\<lambda>e. quick_weight (ev_severity e)) items)"

definition quick_level :: "int \<Rightarrow> jsstring" where
  "quick_level n = (if n \<ge> 50 then lit ''high'' else if n \<ge> 20 then lit ''medium'' else lit ''low'')"

text \<open>A record with a given type and severity, for concrete instances.\<close>

definition sample :: "jsstring \<Rightarrow> jsstring \<Rightarrow> evidence" where
  "sample ty sev = \<lparr>ev_id = 1, ev_time = [], ev_type = ty, ev_severity = sev,
     ev_location = LocPrim JNull, ev_snippet = [], ev_stack = JNull\<rparr>"

text \<open>
  A host for concrete instances: the page state is trivial, the original evaluator
  computes 2 for the code \<open>1+1\<close>, and the object with reference 0 has a \<open>toString\<close>
  that throws.
\<close>

definition demo_host :: "unit host" where
  "demo_host =
     \<lparr>location_href = (\<lambda>w. lit ''https://example.com/''),
      date_now = (\<lambda>w. lit ''2024-01-01T00:00:00.000Z''),
      error_stack = (\<lambda>w. JStr (lit ''Error'')),
      String_host = (\<lambda>v. if v = JObj 0 then Inl (Thrown JNull) else Inr (lit ''[object Object]'')),
      tagName_of = (\<lambda>v. if v = JObj 1 then JStr (lit ''DIV'') else JUndefined),
      toLowerCase = (\<lambda>s. if s = lit ''DIV'' then lit ''div'' else s),
      window_ref = 100,
      box_ref = (\<lambda>v. 101),
      native = (\<lambda>s this args w.
                  if s = Eval \<and> args = [JStr (lit ''1+1'')] then (Inr (JNum 2), w)
                  else (Inr JUndefined, w))\<rparr>"

text \<open>
  A record as \<open>addEvidence\<close> builds it from a string snippet source and a location
  object, before its id is assigned; \<open>stamp n\<close> assigns the ids that follow \<open>n\<close>, and
  \<open>emit\<close> is the effect of appending such records one after the other.
\<close>

definition template ::
  "'w host \<Rightarrow> 'w \<Rightarrow> jsstring \<Rightarrow> jsstring \<Rightarrow> jsstring \<Rightarrow> location \<Rightarrow> jsval \<Rightarrow> evidence" where
  "template h w ty sev src loc stk =
     \<lparr>ev_id = 0, ev_time = date_now h w, ev_type = ty, ev_severity = sev,
      ev_location = LocObj loc, ev_snippet = take 200 src,
      ev_stack = (if stk = JUndefined then JNull else stk)\<rparr>"

fun stamp :: "nat \<Rightarrow> evidence list \<Rightarrow> evidence list" where
  "stamp n [] = []"
| "stamp n (e # es) = e\<lparr>ev_id := Suc n\<rparr> # stamp (Suc n) es"

definition emit :: "evidence list \<Rightarrow> 'w page \<Rightarrow> 'w page" where
  "emit ts st =
     st\<lparr>evidenceIdCounter := evidenceIdCounter st + length ts,
        evidenceList := evidenceList st @ stamp (evidenceIdCounter st) ts\<rparr>"

text \<open>
  The records of the three scanner rules for a document, before ids are assigned:
  for one attribute name of one element, for one element, for one element with a
  \<open>javascript:\<close> URL, for one inline script, and for the whole document.
\<close>

definition attr_records :: "'w host \<Rightarrow> 'w \<Rightarrow> element \<Rightarrow> nat \<Rightarrow> jsstring \<Rightarrow> evidence list" where
  "attr_records h w elem index attr =
     (if hasAttribute elem attr
      then [template h w (lit ''inline-event-handler'') (lit ''medium'')
              (attr @ lit ''='' @ [quote] @ template_text (getAttribute elem attr) @ [quote])
              \<lparr>loc_url = location_href h w,
               loc_selector = Some (JStr (toLowerCase h (tagName elem) @ lit ''['' @ attr @ lit '']'')),
               loc_index = Some index, loc_length = None, loc_position = None\<rparr>
              JUndefined]
      else [])"

definition element_records :: "'w host \<Rightarrow> 'w \<Rightarrow> element \<Rightarrow> nat \<Rightarrow> evidence list" where
  "element_records h w elem index = concat (map (attr_records h w elem index) inlineEventAttrs)"

definition protocol_records :: "'w host \<Rightarrow> 'w \<Rightarrow> element \<Rightarrow> nat \<Rightarrow> evidence list" where
  "protocol_records h w elem index =
     (let attr = (if truthy (href_prop elem) then lit ''href'' else lit ''src'')
      in [template h w (lit ''javascript-protocol'') (lit ''high'')
            (attr @ lit ''='' @ [quote] @ template_text (getAttribute elem attr) @ [quote])
            \<lparr>loc_url = location_href h w,
             loc_selector = Some (JStr (toLowerCase h (tagName elem) @ lit ''['' @ attr
                                   @ lit ''^='' @ [quote] @ lit ''javascript:'' @ [quote] @ lit '']'')),
             loc_index = Some index, loc_length = None, loc_position = None\<rparr>
            JUndefined])"

definition script_content :: "element \<Rightarrow> jsstring option" where
  "script_content script =
     (if textContent script \<noteq> [] then Some (textContent script) else innerText script)"

definition script_records :: "'w host \<Rightarrow> 'w \<Rightarrow> element \<Rightarrow> nat \<Rightarrow> evidence list" where
  "script_records h w script index =
     (case script_content script of
        None \<Rightarrow> []
      | Some c \<Rightarrow>
          if c \<noteq> [] \<and> length (trim c) > 0
          then [template h w (lit ''inline-script'') (lit ''low'') c
                  \<lparr>loc_url = location_href h w,
                   loc_selector = Some (JStr (lit ''script:not([src])'')),
                   loc_index = Some index, loc_length = Some (length c), loc_position = None\<rparr>
                  JUndefined]
          else [])"

definition static_records :: "'w host \<Rightarrow> 'w \<Rightarrow> document \<Rightarrow> evidence list" where
  "static_records h w doc =
     concat (map (\<lambda>(i, e). element_records h w e i) (List.enumerate 0 (allElements doc)))
     @ concat (map (\<lambda>(i, e). protocol_records h w e i) (List.enumerate 0 (jsProtocolElements doc)))
     @ concat (map (\<lambda>(i, e). script_records h w e i) (List.enumerate 0 (inlineScripts doc)))"

text \<open>The \<open>index\<close> property of the location of a record, if it has one.\<close>

definition location_index :: "evidence \<Rightarrow> nat option" where
  "location_index r = (case ev_location r of LocObj l \<Rightarrow> loc_index l | LocPrim v \<Rightarrow> None)"

text \<open>
  A document for concrete instances: a \<open>div\<close> with two event-handler attributes and
  one other attribute, a \<open>button\<close> whose \<open>onclick\<close> value has 300 code units, and one
  inline script of 250 code units.
\<close>

definition long_text :: jsstring where
  "long_text = replicate 300 0x61"

definition script_text :: jsstring where
  "script_text = replicate 250 0x61"

definition demo_div :: element where
  "demo_div =
     \<lparr>tagName = lit ''DIV'',
      attributes = [lit ''onclick'' \<mapsto> lit ''f()'', lit ''id'' \<mapsto> lit ''x'', lit ''onload'' \<mapsto> lit ''g()''],
      href_prop = JUndefined, textContent = [], innerText = Some []\<rparr>"

definition demo_button :: element where
  "demo_button =
     \<lparr>tagName = lit ''BUTTON'',
      attributes = [lit ''onclick'' \<mapsto> long_text],
      href_prop = JUndefined, textContent = [], innerText = Some []\<rparr>"

definition demo_script :: element where
  "demo_script =
     \<lparr>tagName = lit ''SCRIPT'', attributes = Map.empty, href_prop = JUndefined,
      textContent = script_text, innerText = Some script_text\<rparr>"

definition demo_doc :: document where
  "demo_doc =
     \<lparr>readyState_loading = False,
      allElements = [demo_div, demo_button, demo_script],
      jsProtocolElements = [],
      inlineScripts = [demo_script]\<rparr>"

text \<open>
  The table of instrumented operations: the type and severity of the record of each
  sink, the text that becomes its snippet (\<open>None\<close> when the call is not recorded:
  a scheduler whose first argument is not a string), and its location.
\<close>

fun sink_type :: "sink \<Rightarrow> jsstring" where
  "sink_type Eval = lit ''eval-call''"
| "sink_type FunctionCtor = lit ''function-constructor''"
| "sink_type DocumentWrite = lit ''document-write''"
| "sink_type DocumentWriteln = lit ''document-writeln''"
| "sink_type SetTimeout = lit ''settimeout-string''"
| "sink_type SetInterval = lit ''setinterval-string''"
| "sink_type InnerHTML = lit ''innerhtml-set''"
| "sink_type OuterHTML = lit ''outerhtml-set''"
| "sink_type InsertAdjacentHTML = lit ''insertadjacenthtml''"

fun sink_severity :: "sink \<Rightarrow> jsstring" where
  "sink_severity Eval = lit ''high''"
| "sink_severity FunctionCtor = lit ''high''"
| "sink_severity DocumentWrite = lit ''medium''"
| "sink_severity DocumentWriteln = lit ''medium''"
| "sink_severity SetTimeout = lit ''high''"
| "sink_severity SetInterval = lit ''high''"
| "sink_severity InnerHTML = lit ''medium''"
| "sink_severity OuterHTML = lit ''medium''"
| "sink_severity InsertAdjacentHTML = lit ''medium''"

fun is_scheduler :: "sink \<Rightarrow> bool" where
  "is_scheduler SetTimeout = True"
| "is_scheduler SetInterval = True"
| "is_scheduler s = False"

fun snippet_source :: "'w host \<Rightarrow> sink \<Rightarrow> jsval list \<Rightarrow> (abrupt + jsstring) option" where
  "snippet_source h Eval args = Some (String_js h (arg0 args))"
| "snippet_source h FunctionCtor args =
     Some (String_js h (if args = [] then JStr [] else last args))"
| "snippet_source h DocumentWrite args = Some (String_js h (arg0 args))"
| "snippet_source h DocumentWriteln args = Some (String_js h (arg0 args))"
| "snippet_source h SetTimeout args =
     (if typeof_string (arg0 args) then Some (String_js h (arg0 args)) else None)"
| "snippet_source h SetInterval args =
     (if typeof_string (arg0 args) then Some (String_js h (arg0 args)) else None)"
| "snippet_source h InnerHTML args = Some (String_js h (arg0 args))"
| "snippet_source h OuterHTML args = Some (String_js h (arg0 args))"
| "snippet_source h InsertAdjacentHTML args = Some (String_js h (arg0 (tl args)))"

fun sink_location :: "'w host \<Rightarrow> 'w \<Rightarrow> sink \<Rightarrow> jsval \<Rightarrow> jsval list \<Rightarrow> abrupt + location" where
  "sink_location h w InnerHTML this args =
     (case this_selector h this of
        Inl e \<Rightarrow> Inl e
      | Inr sel \<Rightarrow> Inr \<lparr>loc_url = location_href h w, loc_selector = Some (JStr sel),
                       loc_index = None, loc_length = None, loc_position = None\<rparr>)"
| "sink_location h w OuterHTML this args =
     (case this_selector h this of
        Inl e \<Rightarrow> Inl e
      | Inr sel \<Rightarrow> Inr \<lparr>loc_url = location_href h w, loc_selector = Some (JStr sel),
                       loc_index = None, loc_length = None, loc_position = None\<rparr>)"
| "sink_location h w InsertAdjacentHTML this args =
     (case this_selector h this of
        Inl e \<Rightarrow> Inl e
      | Inr sel \<Rightarrow> Inr \<lparr>loc_url = location_href h w, loc_selector = Some (JStr sel),
                       loc_index = None, loc_length = None, loc_position = Some (arg0 args)\<rparr>)"
| "sink_location h w s this args =
     Inr \<lparr>loc_url = location_href h w, loc_selector = None, loc_index = None,
          loc_length = None, loc_position = None\<rparr>"

text \<open>
  What one wrapper does before it delegates, for a call with \<open>this\<close> and \<open>args\<close> on
  a page in state \<open>w\<close>: it throws, or it appends the records of this list (none or
  one).
\<close>

definition hook_outcome ::
  "'w host \<Rightarrow> 'w \<Rightarrow> sink \<Rightarrow> jsval \<Rightarrow> jsval list \<Rightarrow> abrupt + evidence list" where
  "hook_outcome h w s this args =
     (case snippet_source h s args of
        None \<Rightarrow> Inr []
      | Some (Inl e) \<Rightarrow> Inl e
      | Some (Inr src) \<Rightarrow>
          (case sink_location h w s this args of
             Inl e \<Rightarrow> Inl e
           | Inr loc \<Rightarrow>
               Inr [template h w (sink_type s) (sink_severity s) src loc (error_stack h w)]))"

text \<open>
  The invariant of the evidence store: ids increase strictly along the list, none
  exceeds the counter, and no snippet is longer than 200 code units.
\<close>

definition store_ok :: "'w page \<Rightarrow> bool" where
  "store_ok st =
     (sorted_wrt (<) (map ev_id (evidenceList st))
      \<and> list_all (\<lambda>e. ev_id e \<le> evidenceIdCounter st \<and> length (ev_snippet e) \<le> 200)
           (evidenceList st))"

text \<open>A document without elements, loaded completely.\<close>

definition empty_doc :: document where
  "empty_doc = \<lparr>readyState_loading = False, allElements = [], jsProtocolElements = [],
                 inlineScripts = []\<rparr>"

section \<open>The popup heuristic and the service scoring\<close>

lemma sev_distinct:
  "lit ''high'' \<noteq> lit ''medium''" "lit ''high'' \<noteq> lit ''low''" "lit ''medium'' \<noteq> lit ''low''"
  by (simp_all add: lit_def)

lemma weight_high: "weight_or_zero (lit ''high'') = Number 10"
  by (simp add: weight_or_zero_def severityWeights_def lit_def)

lemma weight_medium: "weight_or_zero (lit ''medium'') = Number 5"
  by (simp add: weight_or_zero_def severityWeights_def lit_def)

lemma weight_low: "weight_or_zero (lit ''low'') = Number 2"
  by (simp add: weight_or_zero_def severityWeights_def lit_def)

lemma weight_known: "known_severity sev \<Longrightarrow> weight_or_zero sev = Number (quick_weight sev)"
  using sev_distinct
  by (auto simp: known_severity_def quick_weight_def weight_high weight_medium weight_low)

lemma foldl_known:
  "list_all (\<lambda>e. known_severity (ev_severity e)) items \<Longrightarrow>
     foldl (\<lambda>acc item. plus_assign acc (weight_or_zero (ev_severity item))) (NumScore a) items
       = NumScore (a + quick_score items)"
  by (induction items arbitrary: a) (simp_all add: quick_score_def weight_known)

lemma calculateRiskLevel_known:
  assumes "list_all (\<lambda>e. known_severity (ev_severity e)) items"
  shows "calculateRiskLevel (Some items) =
           \<lparr>level = quick_level (quick_score items), score = NumScore (quick_score items)\<rparr>"
proof (cases items)
  case Nil
  then show ?thesis
    by (simp add: calculateRiskLevel_def quick_score_def quick_level_def)
next
  case (Cons e es)
  then have "length items \<noteq> 0"
    by simp
  then show ?thesis
    by (simp add: calculateRiskLevel_def foldl_known [OF assms] quick_level_def Let_def)
qed

lemma quick_score_counts:
  "quick_score items =
     10 * int (length (filter (\<lambda>e. ev_severity e = lit ''high'') items))
   + 5 * int (length (filter (\<lambda>e. ev_severity e = lit ''medium'') items))
   + 2 * int (length (filter (\<lambda>e. ev_severity e = lit ''low'') items))"
proof (induction items)
  case Nil
  show ?case by (simp add: quick_score_def)
next
  case (Cons e es)
  then show ?case
    using sev_distinct by (simp add: quick_score_def quick_weight_def)
qed

lemma quick_score_mset: "mset xs = mset ys \<Longrightarrow> quick_score xs = quick_score ys"
proof -
  assume "mset xs = mset ys"
  then have "sum_mset (image_mset (\<lambda>e. quick_weight (ev_severity e)) (mset xs))
           = sum_mset (image_mset (\<lambda>e. quick_weight (ev_severity e)) (mset ys))"
    by simp
  then show ?thesis
    unfolding quick_score_def by (simp add: sum_mset_sum_list flip: mset_map)
qed

lemma known_mset:
  assumes "mset xs = mset ys" and "list_all (\<lambda>e. known_severity (ev_severity e)) xs"
  shows "list_all (\<lambda>e. known_severity (ev_severity e)) ys"
proof -
  have "set xs = set ys"
    using assms(1) by (rule mset_eq_setD)
  with assms(2) show ?thesis
    by (simp add: list_all_iff)
qed

lemma service_total_mset: "mset xs = mset ys \<Longrightarrow> service_total m xs = service_total m ys"
proof -
  assume "mset xs = mset ys"
  then have "sum_mset (image_mset (\<lambda>e. of_int (service_base_weight (ev_severity e)) * m (ev_type e)) (mset xs))
           = sum_mset (image_mset (\<lambda>e. of_int (service_base_weight (ev_severity e)) * m (ev_type e)) (mset ys))"
    by simp
  then show ?thesis
    unfolding service_total_def by (simp add: sum_mset_sum_list flip: mset_map)
qed

lemma decimal_digit: "n < 10 \<Longrightarrow> decimal_nat n = [of_nat (48 + n)]"
  by (subst decimal_nat.simps) simp

lemma decimal_two_digits:
  "10 \<le> n \<Longrightarrow> n < 100 \<Longrightarrow> decimal_nat n = [of_nat (48 + n div 10), of_nat (48 + n mod 10)]"
  by (subst decimal_nat.simps) (simp add: decimal_digit)

lemma weight_constructor:
  "weight_or_zero (lit ''constructor'') = ObjectText (lit ''function Object() { [native code] }'')"
  by (simp add: weight_or_zero_def severityWeights_def Object_prototype_def lit_def)

text \<open>
  With a severity that names an inherited property the score becomes a string, the
  level is \<open>low\<close>, and the order of the records matters: the record with severity
  \<open>constructor\<close> before or after six high-severity records.
\<close>

lemma inherited_severity_scores:
  "calculateRiskLevel (Some (sample (lit ''x'') (lit ''constructor'')
                               # replicate 6 (sample (lit ''x'') (lit ''high''))))
     = \<lparr>level = lit ''low'',
        score = TextScore (lit ''0function Object() { [native code] }101010101010'')\<rparr>"
  "calculateRiskLevel (Some (replicate 6 (sample (lit ''x'') (lit ''high''))
                               @ [sample (lit ''x'') (lit ''constructor'')]))
     = \<lparr>level = lit ''low'',
        score = TextScore (lit ''60function Object() { [native code] }'')\<rparr>"
proof -
  have ten: "Number_toString 10 = lit ''10''"
    by (simp add: Number_toString_def decimal_two_digits lit_def)
  have zero: "Number_toString 0 = lit ''0''"
    by (simp add: Number_toString_def decimal_digit lit_def)
  have sixty: "Number_toString 60 = lit ''60''"
    by (simp add: Number_toString_def decimal_two_digits lit_def)
  show "calculateRiskLevel (Some (sample (lit ''x'') (lit ''constructor'')
                               # replicate 6 (sample (lit ''x'') (lit ''high''))))
     = \<lparr>level = lit ''low'',
        score = TextScore (lit ''0function Object() { [native code] }101010101010'')\<rparr>"
    by (simp add: calculateRiskLevel_def sample_def weight_constructor weight_high
          numeral_eq_Suc ten zero Let_def)
       (simp add: lit_def)
  show "calculateRiskLevel (Some (replicate 6 (sample (lit ''x'') (lit ''high''))
                               @ [sample (lit ''x'') (lit ''constructor'')]))
     = \<lparr>level = lit ''low'',
        score = TextScore (lit ''60function Object() { [native code] }'')\<rparr>"
    by (simp add: calculateRiskLevel_def sample_def weight_constructor weight_high
          numeral_eq_Suc sixty Let_def)
       (simp add: lit_def)
qed

text \<open>
  C2. Scoring does not depend on the order of the records. Two lists that are
  permutations of each other (they have the same multiset of records) get the same
  level and score from \<open>calculateRiskLevel\<close> when they are lists of evidence records,
  whose severities are the \<open>high\<close>, \<open>medium\<close> and \<open>low\<close> of the data model, and they
  get the same score and verdict from the service scoring, whatever its table of type
  multipliers is.
\<close>

theorem scoring_order_independent:
  assumes "mset xs = mset ys"
  shows "(list_all (\<lambda>e. known_severity (ev_severity e)) xs
            \<longrightarrow> calculateRiskLevel (Some xs) = calculateRiskLevel (Some ys))
       \<and> risk_score (service_analyze m (Some xs)) = risk_score (service_analyze m (Some ys))
       \<and> report_verdict (service_analyze m (Some xs)) = report_verdict (service_analyze m (Some ys))"
proof -
  have "calculateRiskLevel (Some xs) = calculateRiskLevel (Some ys)"
    if xs: "list_all (\<lambda>e. known_severity (ev_severity e)) xs"
  proof -
    have ys: "list_all (\<lambda>e. known_severity (ev_severity e)) ys"
      using assms xs by (rule known_mset)
    show ?thesis
      by (simp add: calculateRiskLevel_known xs ys quick_score_mset [OF assms])
  qed
  then show ?thesis
    using service_total_mset [OF assms, of m]
    by (simp add: service_analyze_def service_score_def)
qed

theorem scoring_order_independent_witness:
  "mset [sample (lit ''eval-call'') (lit ''high''), sample (lit ''inline-script'') (lit ''low'')]
     = mset [sample (lit ''inline-script'') (lit ''low''), sample (lit ''eval-call'') (lit ''high'')]
   \<and> list_all (\<lambda>e. known_severity (ev_severity e))
        [sample (lit ''eval-call'') (lit ''high''), sample (lit ''inline-script'') (lit ''low'')]
   \<and> calculateRiskLevel (Some [sample (lit ''eval-call'') (lit ''high''), sample (lit ''inline-script'') (lit ''low'')])
     = calculateRiskLevel (Some [sample (lit ''inline-script'') (lit ''low''), sample (lit ''eval-call'') (lit ''high'')])
   \<and> score (calculateRiskLevel (Some [sample (lit ''inline-script'') (lit ''low''), sample (lit ''eval-call'') (lit ''high'')]))
     = NumScore 12"
proof -
  have m: "mset [sample (lit ''eval-call'') (lit ''high''), sample (lit ''inline-script'') (lit ''low'')]
     = mset [sample (lit ''inline-script'') (lit ''low''), sample (lit ''eval-call'') (lit ''high'')]"
    by (simp add: add.commute)
  have k: "list_all (\<lambda>e. known_severity (ev_severity e))
        [sample (lit ''eval-call'') (lit ''high''), sample (lit ''inline-script'') (lit ''low'')]"
    by (simp add: sample_def known_severity_def)
  have s: "score (calculateRiskLevel (Some [sample (lit ''inline-script'') (lit ''low''), sample (lit ''eval-call'') (lit ''high'')]))
     = NumScore 12"
    by (simp add: calculateRiskLevel_def sample_def weight_high weight_low)
  have "calculateRiskLevel (Some [sample (lit ''eval-call'') (lit ''high''), sample (lit ''inline-script'') (lit ''low'')])
     = calculateRiskLevel (Some [sample (lit ''inline-script'') (lit ''low''), sample (lit ''eval-call'') (lit ''high'')])"
    using scoring_order_independent [OF m, of "\<lambda>t. 1"] k by blast
  with m k s show ?thesis
    by blast
qed

text \<open>
  C3. Empty or absent evidence never fails and gives a complete report:
  \<open>calculateRiskLevel\<close> returns score 0 and the lowest level \<open>low\<close> for \<open>null\<close>,
  \<open>undefined\<close> and the empty list, and the service scoring returns score 0, verdict
  Safe and empty explanation and supporting-evidence lists for malformed and for
  empty evidence.
\<close>

theorem empty_evidence_scores_zero:
  "calculateRiskLevel None = \<lparr>level = lit ''low'', score = NumScore 0\<rparr>
 \<and> calculateRiskLevel (Some []) = \<lparr>level = lit ''low'', score = NumScore 0\<rparr>
 \<and> service_analyze m None =
     \<lparr>risk_score = 0, report_verdict = Safe, report_explanation = [], supporting_evidence = []\<rparr>
 \<and> service_analyze m (Some []) =
     \<lparr>risk_score = 0, report_verdict = Safe, report_explanation = [], supporting_evidence = []\<rparr>"
  by (simp add: calculateRiskLevel_def service_analyze_def service_score_def service_total_def
      service_verdict_def service_explanation_def service_supporting_def)

text \<open>
  C8. For evidence records (with the severities \<open>high\<close>, \<open>medium\<close> and \<open>low\<close> of the
  data model) the score of \<open>calculateRiskLevel\<close> is the sum of the severity weights,
  10 for each \<open>high\<close>, 5 for each \<open>medium\<close> and 2 for each \<open>low\<close> record; two
  high-severity records and one medium-severity record score 25, which is level
  \<open>medium\<close>.
\<close>

theorem quick_estimate_weights:
  assumes "list_all (\<lambda>e. known_severity (ev_severity e)) items"
  shows "score (calculateRiskLevel (Some items)) =
           NumScore (10 * int (length (filter (\<lambda>e. ev_severity e = lit ''high'') items))
                   + 5 * int (length (filter (\<lambda>e. ev_severity e = lit ''medium'') items))
                   + 2 * int (length (filter (\<lambda>e. ev_severity e = lit ''low'') items)))
       \<and> calculateRiskLevel (Some [a\<lparr>ev_severity := lit ''high''\<rparr>, b\<lparr>ev_severity := lit ''high''\<rparr>,
                                    c\<lparr>ev_severity := lit ''medium''\<rparr>])
           = \<lparr>level = lit ''medium'', score = NumScore 25\<rparr>"
proof -
  have 1: "score (calculateRiskLevel (Some items)) =
           NumScore (10 * int (length (filter (\<lambda>e. ev_severity e = lit ''high'') items))
                   + 5 * int (length (filter (\<lambda>e. ev_severity e = lit ''medium'') items))
                   + 2 * int (length (filter (\<lambda>e. ev_severity e = lit ''low'') items)))"
    by (simp add: calculateRiskLevel_known [OF assms] quick_score_counts [symmetric])
  have 2: "calculateRiskLevel (Some [a\<lparr>ev_severity := lit ''high''\<rparr>, b\<lparr>ev_severity := lit ''high''\<rparr>,
                                    c\<lparr>ev_severity := lit ''medium''\<rparr>])
           = \<lparr>level = lit ''medium'', score = NumScore 25\<rparr>"
    by (simp add: calculateRiskLevel_def weight_high weight_medium)
  from 1 2 show ?thesis
    by simp
qed

theorem quick_estimate_weights_witness:
  "list_all (\<lambda>e. known_severity (ev_severity e))
     [sample (lit ''eval-call'') (lit ''high''), sample (lit ''javascript-protocol'') (lit ''high''),
      sample (lit ''innerhtml-set'') (lit ''medium''), sample (lit ''inline-script'') (lit ''low'')]
 \<and> calculateRiskLevel (Some
     [sample (lit ''eval-call'') (lit ''high''), sample (lit ''javascript-protocol'') (lit ''high''),
      sample (lit ''innerhtml-set'') (lit ''medium''), sample (lit ''inline-script'') (lit ''low'')])
     = \<lparr>level = lit ''medium'', score = NumScore 27\<rparr>"
proof -
  have k: "list_all (\<lambda>e. known_severity (ev_severity e))
     [sample (lit ''eval-call'') (lit ''high''), sample (lit ''javascript-protocol'') (lit ''high''),
      sample (lit ''innerhtml-set'') (lit ''medium''), sample (lit ''inline-script'') (lit ''low'')]"
    by (simp add: sample_def known_severity_def)
  have l: "level (calculateRiskLevel (Some
     [sample (lit ''eval-call'') (lit ''high''), sample (lit ''javascript-protocol'') (lit ''high''),
      sample (lit ''innerhtml-set'') (lit ''medium''), sample (lit ''inline-script'') (lit ''low'')]))
     = lit ''medium''"
    by (simp add: calculateRiskLevel_def sample_def weight_high weight_medium weight_low)
  have s: "score (calculateRiskLevel (Some
     [sample (lit ''eval-call'') (lit ''high''), sample (lit ''javascript-protocol'') (lit ''high''),
      sample (lit ''innerhtml-set'') (lit ''medium''), sample (lit ''inline-script'') (lit ''low'')]))
     = NumScore 27"
    using quick_estimate_weights [OF k] sev_distinct by (simp add: sample_def)
  show ?thesis
    using k l s by (cases "calculateRiskLevel (Some
     [sample (lit ''eval-call'') (lit ''high''), sample (lit ''javascript-protocol'') (lit ''high''),
      sample (lit ''innerhtml-set'') (lit ''medium''), sample (lit ''inline-script'') (lit ''low'')])") simp
qed

section \<open>What addEvidence and the loops append\<close>

lemma snippet_text_JStr: "snippet_text (JStr s) = Inr (take 200 s)"
  by (simp add: snippet_text_def)

lemma emit_Nil: "emit [] st = st"
  by (simp add: emit_def)

lemma stamp_append: "stamp n (ts @ us) = stamp n ts @ stamp (n + length ts) us"
  by (induction ts arbitrary: n) simp_all

lemma length_stamp: "length (stamp n ts) = length ts"
  by (induction ts arbitrary: n) simp_all

lemma emit_append: "emit (ts @ us) st = emit us (emit ts st)"
  by (simp add: emit_def stamp_append add.assoc)

lemma world_emit: "world (emit ts st) = world st"
  by (simp add: emit_def)

lemma sinks_emit: "sinks (emit ts st) = sinks st"
  by (simp add: emit_def)

lemma addEvidence_stmt_JStr:
  "addEvidence_stmt h ty sev (JStr s) (LocObj l) stk st
     = (Inr (), emit [template h (world st) ty sev s l stk] st)"
  by (simp add: addEvidence_stmt_def addEvidence_def snippet_text_JStr emit_def template_def Let_def)

lemma forEach_from_emit:
  assumes "\<And>x j st. f x j st = (Inr (), emit (g (world st) x j) st)"
  shows "forEach_from i f xs st
           = (Inr (), emit (concat (map (\<lambda>(j, x). g (world st) x j) (List.enumerate i xs))) st)"
proof (induction xs arbitrary: i st)
  case Nil
  show ?case by (simp add: emit_Nil)
next
  case (Cons x xs)
  have "forEach_from i f (x # xs) st = forEach_from (Suc i) f xs (emit (g (world st) x i) st)"
    by (simp add: assms [of x i st])
  also have "\<dots> = (Inr (), emit (concat (map (\<lambda>(j, x). g (world st) x j) (List.enumerate (Suc i) xs)))
                          (emit (g (world st) x i) st))"
    by (simp add: Cons.IH world_emit)
  finally show ?case
    by (simp add: emit_append)
qed

lemma map_enumerate_snd: "map (\<lambda>(j, x). F x) (List.enumerate i xs) = map F xs"
  by (induction xs arbitrary: i) simp_all


lemma checkInlineAttr_emit:
  "checkInlineAttr h elem index attr st = (Inr (), emit (attr_records h (world st) elem index attr) st)"
  by (simp add: checkInlineAttr_def attr_records_def addEvidence_stmt_JStr emit_Nil Let_def)

lemma inner_forEach_emit:
  "forEach (\<lambda>attr k. checkInlineAttr h elem index attr) inlineEventAttrs st
     = (Inr (), emit (element_records h (world st) elem index) st)"
  unfolding forEach_def element_records_def
  by (subst forEach_from_emit [where g = "\<lambda>w attr k. attr_records h w elem index attr"])
     (simp_all add: checkInlineAttr_emit map_enumerate_snd)

lemma scanInlineHandlers_emit:
  "scanInlineHandlers h doc st
     = (Inr (), emit (concat (map (\<lambda>(i, e). element_records h (world st) e i)
                                (List.enumerate 0 (allElements doc)))) st)"
  unfolding scanInlineHandlers_def forEach_def [of _ "allElements doc"]
  by (subst forEach_from_emit [where g = "\<lambda>w e i. element_records h w e i"])
     (simp_all add: inner_forEach_emit)

lemma checkJsProtocol_emit:
  "checkJsProtocol h elem index st = (Inr (), emit (protocol_records h (world st) elem index) st)"
  by (simp add: checkJsProtocol_def protocol_records_def addEvidence_stmt_JStr Let_def)

lemma scanJsProtocol_emit:
  "scanJsProtocol h doc st
     = (Inr (), emit (concat (map (\<lambda>(i, e). protocol_records h (world st) e i)
                                (List.enumerate 0 (jsProtocolElements doc)))) st)"
  unfolding scanJsProtocol_def forEach_def
  by (subst forEach_from_emit [where g = "\<lambda>w e i. protocol_records h w e i"])
     (simp_all add: checkJsProtocol_emit)

lemma checkInlineScript_emit:
  "checkInlineScript h script index st = (Inr (), emit (script_records h (world st) script index) st)"
  by (simp add: checkInlineScript_def script_records_def script_content_def addEvidence_stmt_JStr
        emit_Nil Let_def split: option.splits)

lemma scanInlineScripts_emit:
  "scanInlineScripts h doc st
     = (Inr (), emit (concat (map (\<lambda>(i, e). script_records h (world st) e i)
                                (List.enumerate 0 (inlineScripts doc)))) st)"
  unfolding scanInlineScripts_def forEach_def
  by (subst forEach_from_emit [where g = "\<lambda>w e i. script_records h w e i"])
     (simp_all add: checkInlineScript_emit)

lemma collectStaticSignals_emit:
  "collectStaticSignals h doc st = (Inr (), emit (static_records h (world st) doc) st)"
  by (simp add: collectStaticSignals_def seq_def scanInlineHandlers_emit scanJsProtocol_emit
        scanInlineScripts_emit static_records_def world_emit emit_append)

section \<open>The records of the static scanner\<close>


lemma map_filter_stamp:
  assumes "\<And>e k. P (e\<lparr>ev_id := k\<rparr>) = P e" and "\<And>e k. f (e\<lparr>ev_id := k\<rparr>) = f e"
  shows "map f (filter P (stamp n ts)) = map f (filter P ts)"
  by (induction ts arbitrary: n) (simp_all add: assms)

lemma filter_concat_enumerate_none:
  assumes "\<And>j x r. r \<in> set (G x j) \<Longrightarrow> P r = (j = i)" and "i < k"
  shows "filter P (concat (map (\<lambda>(j, x). G x j) (List.enumerate k xs))) = []"
  using assms(2)
proof (induction xs arbitrary: k)
  case Nil
  show ?case by simp
next
  case (Cons x xs)
  have "filter P (G x k) = []"
    using assms(1) [of _ x k] Cons.prems by (auto simp: filter_empty_conv)
  then show ?case
    using Cons.IH [of "Suc k"] Cons.prems by simp
qed

lemma filter_concat_enumerate:
  assumes "\<And>j x r. r \<in> set (G x j) \<Longrightarrow> P r = (j = i)" and "k \<le> i" and "i < k + length xs"
  shows "filter P (concat (map (\<lambda>(j, x). G x j) (List.enumerate k xs))) = G (xs ! (i - k)) i"
  using assms(2,3)
proof (induction xs arbitrary: k)
  case Nil
  then show ?case by simp
next
  case (Cons x xs)
  show ?case
  proof (cases "k = i")
    case True
    have "filter P (G x i) = G x i"
      using assms(1) [of _ x i] by (auto simp: filter_id_conv)
    moreover have "filter P (concat (map (\<lambda>(j, x). G x j) (List.enumerate (Suc i) xs))) = []"
      by (rule filter_concat_enumerate_none [OF assms(1)]) simp_all
    ultimately show ?thesis
      using True by simp
  next
    case False
    then have lt: "Suc k \<le> i" "i < Suc k + length xs"
      using Cons.prems by simp_all
    have "filter P (G x k) = []"
      using assms(1) [of _ x k] False by (auto simp: filter_empty_conv)
    moreover have "(x # xs) ! (i - k) = xs ! (i - Suc k)"
      using lt by (simp add: nth_Cons')
    ultimately show ?thesis
      using Cons.IH [OF lt] by simp
  qed
qed

lemma filter_concat_enumerate_never:
  assumes "\<And>j x r. r \<in> set (G x j) \<Longrightarrow> \<not> P r"
  shows "filter P (concat (map (\<lambda>(j, x). G x j) (List.enumerate k xs))) = []"
  using assms by (induction xs arbitrary: k) (auto simp: filter_empty_conv)

lemma type_names_distinct:
  "lit ''inline-event-handler'' \<noteq> lit ''javascript-protocol''"
  "lit ''inline-event-handler'' \<noteq> lit ''inline-script''"
  "lit ''javascript-protocol'' \<noteq> lit ''inline-script''"
  by (simp_all add: lit_def)

lemma attr_records_fields:
  "r \<in> set (attr_records h w e j a) \<Longrightarrow>
     ev_type r = lit ''inline-event-handler'' \<and> location_index r = Some j"
  by (auto simp: attr_records_def template_def location_index_def split: if_splits)

lemma element_records_fields:
  "r \<in> set (element_records h w e j) \<Longrightarrow>
     ev_type r = lit ''inline-event-handler'' \<and> location_index r = Some j"
  by (auto simp: element_records_def dest: attr_records_fields)

lemma protocol_records_fields:
  "r \<in> set (protocol_records h w e j) \<Longrightarrow>
     ev_type r = lit ''javascript-protocol'' \<and> location_index r = Some j"
  by (auto simp: protocol_records_def template_def location_index_def Let_def)

lemma script_records_fields:
  "r \<in> set (script_records h w e j) \<Longrightarrow>
     ev_type r = lit ''inline-script'' \<and> location_index r = Some j"
  by (auto simp: script_records_def template_def location_index_def split: option.splits if_splits)

lemma concat_map_if_singleton:
  "concat (map (\<lambda>a. if Q a then [F a] else []) xs) = map F (filter Q xs)"
  by (induction xs) simp_all

lemma element_records_map:
  "element_records h w e i =
     map (\<lambda>a. template h w (lit ''inline-event-handler'') (lit ''medium'')
              (a @ lit ''='' @ [quote] @ template_text (getAttribute e a) @ [quote])
              \<lparr>loc_url = location_href h w,
               loc_selector = Some (JStr (toLowerCase h (tagName e) @ lit ''['' @ a @ lit '']'')),
               loc_index = Some i, loc_length = None, loc_position = None\<rparr>
              JUndefined)
       (filter (hasAttribute e) inlineEventAttrs)"
  unfolding element_records_def attr_records_def by (rule concat_map_if_singleton)

lemma distinct_inlineEventAttrs: "distinct inlineEventAttrs"
  by (simp add: inlineEventAttrs_def lit_def)

lemma count_matching_attrs:
  "length (filter (hasAttribute e) inlineEventAttrs) = card (dom (attributes e) \<inter> set inlineEventAttrs)"
proof -
  have "set (filter (hasAttribute e) inlineEventAttrs) = dom (attributes e) \<inter> set inlineEventAttrs"
    by (auto simp: hasAttribute_def)
  moreover have "distinct (filter (hasAttribute e) inlineEventAttrs)"
    by (simp add: distinct_inlineEventAttrs)
  ultimately show ?thesis
    by (metis distinct_card)
qed

lemma handler_records_of_element:
  assumes "i < length (allElements doc)"
  shows "filter (\<lambda>r. ev_type r = lit ''inline-event-handler'' \<and> location_index r = Some i)
           (static_records h w doc) = element_records h w (allElements doc ! i) i"
proof -
  let ?P = "\<lambda>r. ev_type r = lit ''inline-event-handler'' \<and> location_index r = Some i"
  have a: "filter ?P (concat (map (\<lambda>(j, e). element_records h w e j) (List.enumerate 0 (allElements doc))))
             = element_records h w (allElements doc ! (i - 0)) i"
    by (rule filter_concat_enumerate) (use assms in \<open>auto dest: element_records_fields\<close>)
  have b: "filter ?P (concat (map (\<lambda>(j, e). protocol_records h w e j) (List.enumerate 0 (jsProtocolElements doc)))) = []"
    by (rule filter_concat_enumerate_never) (use type_names_distinct in \<open>auto dest: protocol_records_fields\<close>)
  have c: "filter ?P (concat (map (\<lambda>(j, e). script_records h w e j) (List.enumerate 0 (inlineScripts doc)))) = []"
    by (rule filter_concat_enumerate_never) (use type_names_distinct in \<open>auto dest: script_records_fields\<close>)
  show ?thesis
    unfolding static_records_def using a b c by simp
qed

lemma new_records_after_scan:
  "drop (length (evidenceList st)) (evidenceList (snd (collectStaticSignals h doc st)))
     = stamp (evidenceIdCounter st) (static_records h (world st) doc)"
  by (simp add: collectStaticSignals_emit emit_def)

lemma handler_records_found:
  fixes h :: "'w host" and st :: "'w page" and doc :: document and i :: nat
  assumes "i < length (allElements doc)"
  shows "map (\<lambda>r. (ev_severity r, ev_snippet r, ev_location r))
           (filter (\<lambda>r. ev_type r = lit ''inline-event-handler'' \<and> location_index r = Some i)
              (drop (length (evidenceList st)) (evidenceList (snd (collectStaticSignals h doc st)))))
           = map (\<lambda>a. (lit ''medium'',
                        take 200 (a @ lit ''='' @ [quote]
                                    @ template_text (getAttribute (allElements doc ! i) a) @ [quote]),
                        LocObj \<lparr>loc_url = location_href h (world st),
                                loc_selector = Some (JStr (toLowerCase h (tagName (allElements doc ! i))
                                                            @ lit ''['' @ a @ lit '']'')),
                                loc_index = Some i, loc_length = None, loc_position = None\<rparr>))
               (filter (hasAttribute (allElements doc ! i)) inlineEventAttrs)"
proof -
  let ?P = "\<lambda>r. ev_type r = lit ''inline-event-handler'' \<and> location_index r = Some i"
  let ?f = "\<lambda>r. (ev_severity r, ev_snippet r, ev_location r)"
  have "map ?f (filter ?P (stamp (evidenceIdCounter st) (static_records h (world st) doc)))
          = map ?f (filter ?P (static_records h (world st) doc))"
    by (rule map_filter_stamp) (simp_all add: location_index_def)
  also have "\<dots> = map ?f (element_records h (world st) (allElements doc ! i) i)"
    by (simp only: handler_records_of_element [OF assms(1)])
  finally show ?thesis
    unfolding new_records_after_scan element_records_map by (simp add: template_def)
qed

text \<open>
  C7 (as amended). For the element at traversal index \<open>i\<close> of the scanned document,
  which carries \<open>k\<close> attributes from the fixed list of event-handler attribute names,
  \<open>collectStaticSignals\<close> appends exactly \<open>k\<close> records of type
  \<open>inline-event-handler\<close> with that index, one per matching attribute in the order of
  the list, each with severity \<open>medium\<close>, a location that names the tag, the attribute
  and the index, and as snippet the first 200 code units of \<open>attrName="attrValue"\<close>.
\<close>

theorem inline_handlers_one_record_per_attribute:
  fixes h :: "'w host" and st :: "'w page" and doc :: document and i :: nat
  assumes "i < length (allElements doc)"
  defines "elem \<equiv> allElements doc ! i"
  defines "found \<equiv>
     filter (\<lambda>r. ev_type r = lit ''inline-event-handler'' \<and> location_index r = Some i)
       (drop (length (evidenceList st)) (evidenceList (snd (collectStaticSignals h doc st))))"
  shows "fst (collectStaticSignals h doc st) = Inr ()
       \<and> length found = card (dom (attributes elem) \<inter> set inlineEventAttrs)
       \<and> map (\<lambda>r. (ev_severity r, ev_snippet r, ev_location r)) found
           = map (\<lambda>a. (lit ''medium'',
                        take 200 (a @ lit ''='' @ [quote] @ template_text (getAttribute elem a) @ [quote]),
                        LocObj \<lparr>loc_url = location_href h (world st),
                                loc_selector = Some (JStr (toLowerCase h (tagName elem) @ lit ''['' @ a @ lit '']'')),
                                loc_index = Some i, loc_length = None, loc_position = None\<rparr>))
               (filter (hasAttribute elem) inlineEventAttrs)"
proof -
  let ?f = "\<lambda>r. (ev_severity r, ev_snippet r, ev_location r)"
  have scanned: "fst (collectStaticSignals h doc st) = Inr ()"
    by (simp add: collectStaticSignals_emit)
  have records: "map ?f found
           = map (\<lambda>a. (lit ''medium'',
                        take 200 (a @ lit ''='' @ [quote] @ template_text (getAttribute elem a) @ [quote]),
                        LocObj \<lparr>loc_url = location_href h (world st),
                                loc_selector = Some (JStr (toLowerCase h (tagName elem) @ lit ''['' @ a @ lit '']'')),
                                loc_index = Some i, loc_length = None, loc_position = None\<rparr>))
               (filter (hasAttribute elem) inlineEventAttrs)"
    unfolding elem_def found_def by (rule handler_records_found [OF assms(1)])
  have "length found = length (map ?f found)"
    by simp
  also have "\<dots> = length (filter (hasAttribute elem) inlineEventAttrs)"
    unfolding records by simp
  also have "\<dots> = card (dom (attributes elem) \<inter> set inlineEventAttrs)"
    by (rule count_matching_attrs)
  finally have counted: "length found = card (dom (attributes elem) \<inter> set inlineEventAttrs)" .
  from scanned counted records show ?thesis
    by simp
qed

lemma demo_div_attrs: "filter (hasAttribute demo_div) inlineEventAttrs = [lit ''onclick'', lit ''onload'']"
  by (simp add: inlineEventAttrs_def hasAttribute_def demo_div_def lit_def)

lemma demo_div_card: "card (dom (attributes demo_div) \<inter> set inlineEventAttrs) = 2"
  using count_matching_attrs [of demo_div] by (simp add: demo_div_attrs)

theorem inline_handlers_one_record_per_attribute_witness:
  "(0::nat) < length (allElements demo_doc)
   \<and> card (dom (attributes (allElements demo_doc ! 0)) \<inter> set inlineEventAttrs) = 2
   \<and> map (\<lambda>r. (ev_severity r, ev_snippet r, ev_location r))
        (filter (\<lambda>r. ev_type r = lit ''inline-event-handler'' \<and> location_index r = Some 0)
           (drop (length (evidenceList (fresh ())))
              (evidenceList (snd (collectStaticSignals demo_host demo_doc (fresh ()))))))
     = [(lit ''medium'', lit ''onclick='' @ [quote] @ lit ''f()'' @ [quote],
         LocObj \<lparr>loc_url = lit ''https://example.com/'', loc_selector = Some (JStr (lit ''div[onclick]'')),
                 loc_index = Some 0, loc_length = None, loc_position = None\<rparr>),
        (lit ''medium'', lit ''onload='' @ [quote] @ lit ''g()'' @ [quote],
         LocObj \<lparr>loc_url = lit ''https://example.com/'', loc_selector = Some (JStr (lit ''div[onload]'')),
                 loc_index = Some 0, loc_length = None, loc_position = None\<rparr>)]"
proof -
  have len: "(0::nat) < length (allElements demo_doc)"
    by (simp add: demo_doc_def)
  have el: "allElements demo_doc ! 0 = demo_div"
    by (simp add: demo_doc_def)
  show ?thesis
    using inline_handlers_one_record_per_attribute [OF len, of demo_host "fresh ()"]
    unfolding el demo_div_attrs demo_div_card
    by (simp add: demo_doc_def demo_host_def demo_div_def getAttribute_def fresh_def lit_def quote_def)
qed

text \<open>
  The snippet of the record is not always the whole text \<open>attrName="attrValue"\<close>: for
  an \<open>onclick\<close> attribute whose value has 300 code units it is not.
\<close>

lemma length_long_text: "length long_text = 300"
  by (simp add: long_text_def)

theorem snippet_is_not_whole_attribute:
  "map ev_snippet
     (filter (\<lambda>r. ev_type r = lit ''inline-event-handler'' \<and> location_index r = Some 1)
        (drop (length (evidenceList (fresh ())))
           (evidenceList (snd (collectStaticSignals demo_host demo_doc (fresh ()))))))
   \<noteq> [lit ''onclick'' @ lit ''='' @ [quote] @ long_text @ [quote]]"
proof
  let ?found = "filter (\<lambda>r. ev_type r = lit ''inline-event-handler'' \<and> location_index r = Some 1)
        (drop (length (evidenceList (fresh ())))
           (evidenceList (snd (collectStaticSignals demo_host demo_doc (fresh ())))))"
  let ?whole = "lit ''onclick'' @ lit ''='' @ [quote] @ long_text @ [quote]"
  assume eq: "map ev_snippet ?found = [?whole]"
  have len: "(1::nat) < length (allElements demo_doc)"
    by (simp add: demo_doc_def)
  have el: "allElements demo_doc ! 1 = demo_button"
    by (simp add: demo_doc_def)
  have at: "filter (hasAttribute demo_button) inlineEventAttrs = [lit ''onclick'']"
    by (simp add: inlineEventAttrs_def hasAttribute_def demo_button_def lit_def)
  have val: "template_text (getAttribute demo_button (lit ''onclick'')) = long_text"
    by (simp add: getAttribute_def demo_button_def)
  note found = handler_records_found
      [where h = demo_host and st = "fresh ()", OF len, unfolded el at]
  have "map (fst \<circ> snd) (map (\<lambda>r. (ev_severity r, ev_snippet r, ev_location r)) ?found)
      = [take 200 (lit ''onclick'' @ lit ''='' @ [quote]
           @ template_text (getAttribute demo_button (lit ''onclick'')) @ [quote])]"
    by (simp only: found list.map fst_conv snd_conv comp_def)
  then have "map ev_snippet ?found = [take 200 ?whole]"
    by (simp only: val map_map comp_def fst_conv snd_conv)
  with eq have "[take 200 ?whole] = [?whole]"
    by (simp only:)
  then have "take 200 ?whole = ?whole"
    by (simp only: list.inject)
  then have "length (take 200 ?whole) = length ?whole"
    by (simp only:)
  then show False
    by (simp add: length_long_text lit_def)
qed

section \<open>What a wrapper does\<close>


lemma String_js_or_str: "(case code of JStr s \<Rightarrow> Inr s | _ \<Rightarrow> String_js h code) = String_js h code"
  by (cases code) simp_all

lemma record_call_emit:
  "record_call h ty sev snip loc st =
     (case snip of
        Inl e \<Rightarrow> (Inl e, st)
      | Inr s \<Rightarrow> (case loc of
                    Inl e \<Rightarrow> (Inl e, st)
                  | Inr l \<Rightarrow> (Inr (), emit [template h (world st) ty sev s l (error_stack h (world st))] st)))"
  by (simp add: record_call_def addEvidence_stmt_JStr split: sum.splits)

lemma hook_record_outcome:
  "hook_record h s this args st =
     (case hook_outcome h (world st) s this args of
        Inl e \<Rightarrow> (Inl e, st)
      | Inr ts \<Rightarrow> (Inr (), emit ts st))"
proof (cases s)
  case Eval
  then show ?thesis
    by (simp add: hook_outcome_def record_call_emit String_js_or_str url_only_def split: sum.splits)
next
  case FunctionCtor
  then show ?thesis
    by (simp add: hook_outcome_def record_call_emit url_only_def split: sum.splits)
next
  case DocumentWrite
  then show ?thesis
    by (simp add: hook_outcome_def record_call_emit url_only_def split: sum.splits)
next
  case DocumentWriteln
  then show ?thesis
    by (simp add: hook_outcome_def record_call_emit url_only_def split: sum.splits)
next
  case SetTimeout
  then show ?thesis
    by (cases "arg0 args") (simp_all add: hook_outcome_def record_call_emit url_only_def emit_Nil)
next
  case SetInterval
  then show ?thesis
    by (cases "arg0 args") (simp_all add: hook_outcome_def record_call_emit url_only_def emit_Nil)
next
  case InnerHTML
  then show ?thesis
    by (simp add: hook_outcome_def record_call_emit url_selector_def split: sum.splits)
next
  case OuterHTML
  then show ?thesis
    by (simp add: hook_outcome_def record_call_emit url_selector_def split: sum.splits)
next
  case InsertAdjacentHTML
  then show ?thesis
    by (simp add: hook_outcome_def record_call_emit url_selector_def split: sum.splits)
qed


lemma sloppy_this_idem: "sloppy_this h (sloppy_this h v) = sloppy_this h v"
  by (cases v) simp_all

lemma forwarded_idem: "forwarded s (forwarded s args) = forwarded s args"
  by (cases s) simp_all

lemma hook_outcome_forwarded:
  "hook_outcome h w s this (forwarded s args) = hook_outcome h w s this args"
  by (cases s) (simp_all add: hook_outcome_def split: sum.splits)

lemma invoke_throws:
  "hook_outcome h (world st) s (sloppy_this h this) args = Inl e \<Longrightarrow>
     invoke h (Hook prev) s this args st = (Inl e, st)"
  by (simp add: hook_record_outcome Let_def)

lemma invoke_stacked:
  assumes "hook_outcome h (world st) s (sloppy_this h this) args = Inr ts"
  shows "invoke h ((Hook ^^ Suc n) Native) s this args st
           = (fst (native h s (sloppy_this h this) (forwarded s args) (world st)),
              (emit (concat (replicate (Suc n) ts)) st)
                \<lparr>world := snd (native h s (sloppy_this h this) (forwarded s args) (world st)),
                 nativeCalls := nativeCalls st @ [(s, sloppy_this h this, forwarded s args)]\<rparr>)"
  using assms
proof (induction n arbitrary: this args st)
  case 0
  then show ?case
    by (simp add: hook_record_outcome world_emit Let_def split: prod.splits) (simp add: emit_def)
next
  case (Suc n)
  let ?recv = "sloppy_this h this"
  let ?fwd = "forwarded s args"
  have out: "hook_outcome h (world (emit ts st)) s (sloppy_this h ?recv) ?fwd = Inr ts"
    using Suc.prems by (simp add: world_emit sloppy_this_idem hook_outcome_forwarded)
  have "invoke h ((Hook ^^ Suc (Suc n)) Native) s this args st
          = invoke h ((Hook ^^ Suc n) Native) s ?recv ?fwd (emit ts st)"
    using Suc.prems by (simp add: hook_record_outcome Let_def)
  also have "\<dots> = (fst (native h s ?recv ?fwd (world st)),
              (emit (concat (replicate (Suc n) ts)) (emit ts st))
                \<lparr>world := snd (native h s ?recv ?fwd (world st)),
                 nativeCalls := nativeCalls st @ [(s, ?recv, ?fwd)]\<rparr>)"
    by (simp only: Suc.IH [OF out] sloppy_this_idem forwarded_idem world_emit) (simp add: emit_def)
  finally show ?case
    by (simp add: emit_append)
qed

lemma forwarded_args: "(is_setter s \<Longrightarrow> length args = 1) \<Longrightarrow> forwarded s args = args"
  by (cases s; cases args) simp_all

lemma hook_outcome_length:
  "hook_outcome h w s this args = Inr ts \<Longrightarrow>
     length ts = (if is_scheduler s \<and> \<not> typeof_string (arg0 args) then 0 else 1)"
  by (cases s) (auto simp: hook_outcome_def split: option.splits sum.splits if_splits)

lemma hook_outcome_type:
  "hook_outcome h w s this args = Inr ts \<Longrightarrow>
     list_all (\<lambda>e. ev_type e = sink_type s \<and> ev_severity e = sink_severity s) ts"
  by (auto simp: hook_outcome_def template_def split: option.splits sum.splits)

lemma hook_outcome_eval_string:
  "hook_outcome h w Eval this [JStr code]
     = Inr [template h w (lit ''eval-call'') (lit ''high'') code
              \<lparr>loc_url = location_href h w, loc_selector = None, loc_index = None,
               loc_length = None, loc_position = None\<rparr> (error_stack h w)]"
  by (simp add: hook_outcome_def)

lemma call_wrapped_once:
  assumes "sinks st s = Hook Native"
      and "hook_outcome h (world st) s (sloppy_this h this) args = Inr ts"
  shows "call_sink h s this args st
           = (fst (native h s (sloppy_this h this) (forwarded s args) (world st)),
              st\<lparr>evidenceIdCounter := evidenceIdCounter st + length ts,
                 evidenceList := evidenceList st @ stamp (evidenceIdCounter st) ts,
                 world := snd (native h s (sloppy_this h this) (forwarded s args) (world st)),
                 nativeCalls := nativeCalls st @ [(s, sloppy_this h this, forwarded s args)]\<rparr>)"
  using invoke_stacked [OF assms(2), of 0] assms(1)
  by (simp add: call_sink_def emit_def)

lemma sinks_hookRuntimeSinks:
  "sinks (hookRuntimeSinks st) s
     = (if is_setter s \<and> sinks st s = Absent then Absent else Hook (sinks st s))"
  by (cases s) (simp_all add: hookRuntimeSinks_def Let_def)

lemma fields_hookRuntimeSinks:
  "evidenceList (hookRuntimeSinks st) = evidenceList st"
  "evidenceIdCounter (hookRuntimeSinks st) = evidenceIdCounter st"
  "world (hookRuntimeSinks st) = world st"
  "nativeCalls (hookRuntimeSinks st) = nativeCalls st"
  "pendingScan (hookRuntimeSinks st) = pendingScan st"
  by (simp_all add: hookRuntimeSinks_def Let_def)

lemma fields_hookRuntimeSinks_pow:
  "evidenceList ((hookRuntimeSinks ^^ n) st) = evidenceList st"
  "evidenceIdCounter ((hookRuntimeSinks ^^ n) st) = evidenceIdCounter st"
  "world ((hookRuntimeSinks ^^ n) st) = world st"
  "nativeCalls ((hookRuntimeSinks ^^ n) st) = nativeCalls st"
  by (induction n) (simp_all add: fields_hookRuntimeSinks)

lemma sinks_hookRuntimeSinks_pow:
  "sinks st s = Native \<Longrightarrow> sinks ((hookRuntimeSinks ^^ n) st) s = (Hook ^^ n) Native"
proof (induction n)
  case 0
  then show ?case by simp
next
  case (Suc n)
  have "(Hook ^^ n) Native \<noteq> Absent"
    by (cases n) simp_all
  with Suc show ?case
    by (simp add: sinks_hookRuntimeSinks)
qed

lemma call_after_installations:
  assumes "sinks st s = Native"
      and "hook_outcome h (world st) s (sloppy_this h this) args = Inr ts"
  shows "call_sink h s this args ((hookRuntimeSinks ^^ Suc n) st)
           = (fst (native h s (sloppy_this h this) (forwarded s args) (world st)),
              (emit (concat (replicate (Suc n) ts)) ((hookRuntimeSinks ^^ Suc n) st))
                \<lparr>world := snd (native h s (sloppy_this h this) (forwarded s args) (world st)),
                 nativeCalls := nativeCalls st @ [(s, sloppy_this h this, forwarded s args)]\<rparr>)"
proof -
  have out: "hook_outcome h (world ((hookRuntimeSinks ^^ Suc n) st)) s (sloppy_this h this) args = Inr ts"
    using assms(2) by (simp only: fields_hookRuntimeSinks_pow)
  show ?thesis
    unfolding call_sink_def sinks_hookRuntimeSinks_pow [OF assms(1)]
    by (simp only: invoke_stacked [OF out] fields_hookRuntimeSinks_pow)
qed

lemma length_concat_replicate: "length (concat (replicate n ts)) = n * length ts"
  by (induction n) simp_all

lemma sinks_initialize_fresh: "sinks (snd (initialize h doc (fresh w))) = (\<lambda>s. Hook Native)"
proof
  fix s
  show "sinks (snd (initialize h doc (fresh w))) s = Hook Native"
    by (cases "readyState_loading doc")
       (simp_all add: initialize_def collectStaticSignals_emit sinks_hookRuntimeSinks sinks_emit fresh_def)
qed

lemma demo_installed: "sinks (hookRuntimeSinks (fresh ())) s = Hook Native"
  by (simp add: sinks_hookRuntimeSinks fresh_def)

lemma fresh_original: "sinks (fresh w) s = Native"
  by (simp add: fresh_def)

section \<open>Wrapped sinks: recording, delegation and repeated installation\<close>


text \<open>
  C1 (as amended). Once \<open>hookRuntimeSinks\<close> has wrapped the original operation of a
  sink, a call of the sink whose argument conversions do not throw (a property
  assignment passing exactly the assigned value) first appends the records \<open>ts\<close> of
  the sink's row of the table, which is one record of the sink's type and severity,
  except that a scheduler called with a first argument that is not a string appends
  none, and then calls the original operation once with the full argument list and
  with the \<open>this\<close> value of the wrapper, returning exactly its result. The wrapper is a
  non-strict function: its \<open>this\<close> is the caller's \<open>this\<close> value when that is an
  object or a function, the global object when it is \<open>undefined\<close> or \<open>null\<close>, and a
  wrapper object when it is a primitive. In particular, if the original evaluator
  returns 2 for the code \<open>1+1\<close>, so does the wrapped one, and it appends exactly one
  record, of type \<open>eval-call\<close> and severity \<open>high\<close> with snippet \<open>1+1\<close>.
\<close>

theorem wrapper_records_then_delegates:
  fixes h :: "'w host"
  assumes installed: "sinks st s = Hook Native"
      and assigned: "is_setter s \<Longrightarrow> length args = 1"
      and converts: "hook_outcome h (world st) s (sloppy_this h this) args = Inr ts"
  shows "call_sink h s this args st
           = (fst (native h s (sloppy_this h this) args (world st)),
              st\<lparr>evidenceIdCounter := evidenceIdCounter st + length ts,
                 evidenceList := evidenceList st @ stamp (evidenceIdCounter st) ts,
                 world := snd (native h s (sloppy_this h this) args (world st)),
                 nativeCalls := nativeCalls st @ [(s, sloppy_this h this, args)]\<rparr>)
       \<and> length ts = (if is_scheduler s \<and> \<not> typeof_string (arg0 args) then 0 else 1)
       \<and> list_all (\<lambda>e. ev_type e = sink_type s \<and> ev_severity e = sink_severity s) ts
       \<and> sloppy_this h (JObj r) = JObj r
       \<and> sloppy_this h (JFunc f) = JFunc f
       \<and> sloppy_this h JUndefined = JObj (window_ref h)
       \<and> sloppy_this h JNull = JObj (window_ref h)
       \<and> (sinks st Eval = Hook Native
            \<and> native h Eval (sloppy_this h recv) [JStr (lit ''1+1'')] (world st) = (Inr (JNum 2), w')
          \<longrightarrow> call_sink h Eval recv [JStr (lit ''1+1'')] st
               = (Inr (JNum 2),
                  st\<lparr>evidenceIdCounter := Suc (evidenceIdCounter st),
                     evidenceList := evidenceList st @
                       [\<lparr>ev_id = Suc (evidenceIdCounter st),
                         ev_time = date_now h (world st),
                         ev_type = lit ''eval-call'',
                         ev_severity = lit ''high'',
                         ev_location = LocObj \<lparr>loc_url = location_href h (world st),
                                                loc_selector = None, loc_index = None,
                                                loc_length = None, loc_position = None\<rparr>,
                         ev_snippet = lit ''1+1'',
                         ev_stack = (if error_stack h (world st) = JUndefined then JNull
                                     else error_stack h (world st))\<rparr>],
                     world := w',
                     nativeCalls := nativeCalls st
                       @ [(Eval, sloppy_this h recv, [JStr (lit ''1+1'')])]\<rparr>))"
proof -
  have fw: "forwarded s args = args"
    using assigned by (rule forwarded_args)
  have 1: "call_sink h s this args st
           = (fst (native h s (sloppy_this h this) args (world st)),
              st\<lparr>evidenceIdCounter := evidenceIdCounter st + length ts,
                 evidenceList := evidenceList st @ stamp (evidenceIdCounter st) ts,
                 world := snd (native h s (sloppy_this h this) args (world st)),
                 nativeCalls := nativeCalls st @ [(s, sloppy_this h this, args)]\<rparr>)"
    using call_wrapped_once [OF installed converts] by (simp only: fw)
  have 4: "call_sink h Eval recv [JStr (lit ''1+1'')] st
               = (Inr (JNum 2),
                  st\<lparr>evidenceIdCounter := Suc (evidenceIdCounter st),
                     evidenceList := evidenceList st @
                       [\<lparr>ev_id = Suc (evidenceIdCounter st),
                         ev_time = date_now h (world st),
                         ev_type = lit ''eval-call'',
                         ev_severity = lit ''high'',
                         ev_location = LocObj \<lparr>loc_url = location_href h (world st),
                                                loc_selector = None, loc_index = None,
                                                loc_length = None, loc_position = None\<rparr>,
                         ev_snippet = lit ''1+1'',
                         ev_stack = (if error_stack h (world st) = JUndefined then JNull
                                     else error_stack h (world st))\<rparr>],
                     world := w',
                     nativeCalls := nativeCalls st
                       @ [(Eval, sloppy_this h recv, [JStr (lit ''1+1'')])]\<rparr>)"
    if "sinks st Eval = Hook Native"
      and "native h Eval (sloppy_this h recv) [JStr (lit ''1+1'')] (world st) = (Inr (JNum 2), w')"
    using call_wrapped_once [OF that(1) hook_outcome_eval_string, of h recv "lit ''1+1''"] that(2)
    by (simp add: template_def lit_def)
  show ?thesis
    using 1 hook_outcome_length [OF converts] hook_outcome_type [OF converts] 4 by simp
qed

theorem wrapper_records_then_delegates_witness:
  "sinks (hookRuntimeSinks (fresh ())) InsertAdjacentHTML = Hook Native
 \<and> hook_outcome demo_host (world (hookRuntimeSinks (fresh ()))) InsertAdjacentHTML
       (sloppy_this demo_host (JObj 1)) [JStr (lit ''beforeend''), JStr (lit ''<b>'')]
     = Inr [template demo_host () (lit ''insertadjacenthtml'') (lit ''medium'') (lit ''<b>'')
              \<lparr>loc_url = lit ''https://example.com/'', loc_selector = Some (JStr (lit ''div'')),
               loc_index = None, loc_length = None,
               loc_position = Some (JStr (lit ''beforeend''))\<rparr> (JStr (lit ''Error''))]
 \<and> map (\<lambda>e. (ev_id e, ev_type e, ev_severity e, ev_snippet e))
      (evidenceList (snd (call_sink demo_host InsertAdjacentHTML (JObj 1)
                            [JStr (lit ''beforeend''), JStr (lit ''<b>'')]
                            (hookRuntimeSinks (fresh ())))))
     = [(1, lit ''insertadjacenthtml'', lit ''medium'', lit ''<b>'')]
 \<and> nativeCalls (snd (call_sink demo_host InsertAdjacentHTML (JObj 1)
                        [JStr (lit ''beforeend''), JStr (lit ''<b>'')]
                        (hookRuntimeSinks (fresh ()))))
     = [(InsertAdjacentHTML, JObj 1, [JStr (lit ''beforeend''), JStr (lit ''<b>'')])]
 \<and> native demo_host Eval (sloppy_this demo_host JUndefined) [JStr (lit ''1+1'')]
       (world (hookRuntimeSinks (fresh ()))) = (Inr (JNum 2), ())
 \<and> fst (call_sink demo_host Eval JUndefined [JStr (lit ''1+1'')] (hookRuntimeSinks (fresh ())))
     = Inr (JNum 2)
 \<and> map (\<lambda>e. (ev_id e, ev_type e, ev_severity e, ev_snippet e))
      (evidenceList (snd (call_sink demo_host Eval JUndefined [JStr (lit ''1+1'')]
                            (hookRuntimeSinks (fresh ())))))
     = [(1, lit ''eval-call'', lit ''high'', lit ''1+1'')]
 \<and> nativeCalls (snd (call_sink demo_host Eval JUndefined [JStr (lit ''1+1'')]
                        (hookRuntimeSinks (fresh ()))))
     = [(Eval, JObj 100, [JStr (lit ''1+1'')])]"
proof -
  have inst: "sinks (hookRuntimeSinks (fresh ())) InsertAdjacentHTML = Hook Native"
    by (rule demo_installed)
  have inst': "sinks (hookRuntimeSinks (fresh ())) Eval = Hook Native"
    by (rule demo_installed)
  have asg: "is_setter InsertAdjacentHTML \<Longrightarrow> length [JStr (lit ''beforeend''), JStr (lit ''<b>'')] = 1"
    by simp
  have out: "hook_outcome demo_host (world (hookRuntimeSinks (fresh ()))) InsertAdjacentHTML
       (sloppy_this demo_host (JObj 1)) [JStr (lit ''beforeend''), JStr (lit ''<b>'')]
     = Inr [template demo_host () (lit ''insertadjacenthtml'') (lit ''medium'') (lit ''<b>'')
              \<lparr>loc_url = lit ''https://example.com/'', loc_selector = Some (JStr (lit ''div'')),
               loc_index = None, loc_length = None,
               loc_position = Some (JStr (lit ''beforeend''))\<rparr> (JStr (lit ''Error''))]"
  proof -
    have sel: "this_selector demo_host (JObj (Suc 0)) = Inr (lit ''div'')"
      by (simp add: this_selector_def demo_host_def Let_def lit_def)
    have host: "location_href demo_host () = lit ''https://example.com/''"
      "error_stack demo_host () = JStr (lit ''Error'')"
      by (simp_all add: demo_host_def)
    show ?thesis
      by (simp add: hook_outcome_def sel host fields_hookRuntimeSinks fresh_def)
  qed
  have nat: "native demo_host Eval (sloppy_this demo_host JUndefined) [JStr (lit ''1+1'')]
       (world (hookRuntimeSinks (fresh ()))) = (Inr (JNum 2), ())"
    by (simp add: demo_host_def)
  note w = wrapper_records_then_delegates
      [where h = demo_host and st = "hookRuntimeSinks (fresh ())" and s = InsertAdjacentHTML
         and this = "JObj 1" and args = "[JStr (lit ''beforeend''), JStr (lit ''<b>'')]"
         and recv = JUndefined and w' = "()",
       OF inst asg out]
  have win: "window_ref demo_host = 100"
    by (simp add: demo_host_def)
  show ?thesis
    using inst out nat inst' w
    by (simp add: fields_hookRuntimeSinks fresh_def template_def win) (simp add: lit_def)
qed

text \<open>
  The wrapper does not always append a record, does not always hand on the caller's
  \<open>this\<close> value, and does not always delegate: the wrapped \<open>setTimeout\<close> in a bare
  call with a function appends nothing and calls the original scheduler with the
  global object as \<open>this\<close>, not with \<open>undefined\<close>; and the wrapped \<open>eval\<close> called
  with an object whose \<open>toString\<close> throws neither appends a record nor calls the
  original evaluator.
\<close>

theorem wrapper_without_record:
  "fst (call_sink demo_host SetTimeout JUndefined [JFunc 0, JNum 0] (hookRuntimeSinks (fresh ())))
     = Inr JUndefined
 \<and> evidenceList (snd (call_sink demo_host SetTimeout JUndefined [JFunc 0, JNum 0]
                          (hookRuntimeSinks (fresh ())))) = []
 \<and> nativeCalls (snd (call_sink demo_host SetTimeout JUndefined [JFunc 0, JNum 0]
                        (hookRuntimeSinks (fresh ()))))
     = [(SetTimeout, JObj 100, [JFunc 0, JNum 0])]
 \<and> JObj 100 \<noteq> JUndefined
 \<and> fst (call_sink demo_host Eval JUndefined [JObj 0] (hookRuntimeSinks (fresh ())))
     = Inl (Thrown JNull)
 \<and> evidenceList (snd (call_sink demo_host Eval JUndefined [JObj 0] (hookRuntimeSinks (fresh ())))) = []
 \<and> nativeCalls (snd (call_sink demo_host Eval JUndefined [JObj 0] (hookRuntimeSinks (fresh ())))) = []"
  by (simp add: call_sink_def demo_installed record_call_def Let_def)
     (simp add: demo_host_def fields_hookRuntimeSinks fresh_def)

text \<open>
  C6. The wrapped \<open>setTimeout\<close> and \<open>setInterval\<close> always call the original
  scheduler, with the arguments of the call and the \<open>this\<close> value of the wrapper (a
  non-strict function: the global object for a bare call), and return its result. If
  the first argument is a string, exactly one record is appended before that, of
  severity \<open>high\<close> and type \<open>settimeout-string\<close> or \<open>setinterval-string\<close>, with the
  first 200 code units of the code as snippet; if it is anything else, a function
  reference for instance, no record is appended.
\<close>

theorem schedulers_record_only_strings:
  fixes h :: "'w host" and st :: "'w page" and s :: sink and this :: jsval and args :: "jsval list"
  assumes "is_scheduler s" and "sinks st s = Hook Native"
  defines "res \<equiv> call_sink h s this args st"
  shows "fst res = fst (native h s (sloppy_this h this) args (world st))
       \<and> world (snd res) = snd (native h s (sloppy_this h this) args (world st))
       \<and> nativeCalls (snd res) = nativeCalls st @ [(s, sloppy_this h this, args)]
       \<and> (case arg0 args of
            JStr code \<Rightarrow>
              evidenceList (snd res) = evidenceList st @
                [\<lparr>ev_id = Suc (evidenceIdCounter st),
                  ev_time = date_now h (world st),
                  ev_type = (if s = SetTimeout then lit ''settimeout-string''
                             else lit ''setinterval-string''),
                  ev_severity = lit ''high'',
                  ev_location = LocObj \<lparr>loc_url = location_href h (world st),
                                         loc_selector = None, loc_index = None,
                                         loc_length = None, loc_position = None\<rparr>,
                  ev_snippet = take 200 code,
                  ev_stack = (if error_stack h (world st) = JUndefined then JNull
                              else error_stack h (world st))\<rparr>]
          | _ \<Rightarrow> evidenceList (snd res) = evidenceList st)"
proof -
  have fw: "forwarded s args = args"
    using assms(1) by (cases s) simp_all
  show ?thesis
  proof (cases "typeof_string (arg0 args)")
    case True
    then obtain code where code: "arg0 args = JStr code"
      by (cases "arg0 args") simp_all
    have out: "hook_outcome h (world st) s (sloppy_this h this) args
                 = Inr [template h (world st) (sink_type s) (lit ''high'') code
                          \<lparr>loc_url = location_href h (world st), loc_selector = None,
                           loc_index = None, loc_length = None, loc_position = None\<rparr>
                          (error_stack h (world st))]"
      using assms(1) code by (cases s) (simp_all add: hook_outcome_def)
    have ty: "sink_type s = (if s = SetTimeout then lit ''settimeout-string'' else lit ''setinterval-string'')"
      using assms(1) by (cases s) simp_all
    show ?thesis
      unfolding res_def call_wrapped_once [OF assms(2) out] fw
      by (simp add: code template_def ty)
  next
    case False
    have out: "hook_outcome h (world st) s (sloppy_this h this) args = Inr []"
      using assms(1) False by (cases s) (simp_all add: hook_outcome_def)
    show ?thesis
      unfolding res_def call_wrapped_once [OF assms(2) out] fw
      using False by (cases "arg0 args") simp_all
  qed
qed

theorem schedulers_record_only_strings_witness:
  "is_scheduler SetInterval
 \<and> sinks (hookRuntimeSinks (fresh ())) SetInterval = Hook Native
 \<and> nativeCalls (snd (call_sink demo_host SetInterval JUndefined [JFunc 7, JNum 100]
                        (hookRuntimeSinks (fresh ()))))
     = [(SetInterval, JObj 100, [JFunc 7, JNum 100])]
 \<and> evidenceList (snd (call_sink demo_host SetInterval JUndefined [JFunc 7, JNum 100]
                          (hookRuntimeSinks (fresh ())))) = []
 \<and> nativeCalls (snd (call_sink demo_host SetInterval (JObj 100) [JStr (lit ''tick()''), JNum 100]
                        (hookRuntimeSinks (fresh ()))))
     = [(SetInterval, JObj 100, [JStr (lit ''tick()''), JNum 100])]
 \<and> map (\<lambda>e. (ev_id e, ev_type e, ev_severity e, ev_snippet e))
      (evidenceList (snd (call_sink demo_host SetInterval (JObj 100) [JStr (lit ''tick()''), JNum 100]
                            (hookRuntimeSinks (fresh ())))))
     = [(1, lit ''setinterval-string'', lit ''high'', lit ''tick()'')]"
proof -
  have sch: "is_scheduler SetInterval"
    by simp
  have inst: "sinks (hookRuntimeSinks (fresh ())) SetInterval = Hook Native"
    by (rule demo_installed)
  have win: "window_ref demo_host = 100"
    by (simp add: demo_host_def)
  note f = schedulers_record_only_strings
      [where h = demo_host and this = JUndefined and args = "[JFunc 7, JNum 100]", OF sch inst]
  note g = schedulers_record_only_strings
      [where h = demo_host and this = "JObj 100" and args = "[JStr (lit ''tick()''), JNum 100]",
       OF sch inst]
  show ?thesis
    using sch inst f g by (simp add: fields_hookRuntimeSinks fresh_def win) (simp add: lit_def)
qed

text \<open>
  C9 (as amended). \<open>hookRuntimeSinks\<close> is not guarded against repetition:
  \<open>initialize\<close> runs it once on a freshly loaded page, which wraps every sink exactly
  once, and every further run wraps every sink once more. Starting from the original
  operation of a sink, after \<open>n\<close> runs (at least one) a call of the sink whose
  argument conversions do not throw appends \<open>n\<close> times the records of one wrapper
  (\<open>n\<close> records, or none for a scheduler whose first argument is not a string) and
  calls the original operation exactly once, with the \<open>this\<close> value of the wrappers
  and the arguments they forward, returning its result.
\<close>

theorem repeated_installation_stacks_wrappers:
  fixes h :: "'w host" and st :: "'w page" and s :: sink and this :: jsval
    and args :: "jsval list" and n :: nat
  assumes original: "sinks st s = Native"
      and converts: "hook_outcome h (world st) s (sloppy_this h this) args = Inr ts"
  defines "res \<equiv> call_sink h s this args ((hookRuntimeSinks ^^ Suc n) st)"
  shows "fst res = fst (native h s (sloppy_this h this) (forwarded s args) (world st))
       \<and> world (snd res) = snd (native h s (sloppy_this h this) (forwarded s args) (world st))
       \<and> nativeCalls (snd res) = nativeCalls st @ [(s, sloppy_this h this, forwarded s args)]
       \<and> evidenceList (snd res)
           = evidenceList st @ stamp (evidenceIdCounter st) (concat (replicate (Suc n) ts))
       \<and> length (evidenceList (snd res)) = length (evidenceList st) + Suc n * length ts
       \<and> length ts = (if is_scheduler s \<and> \<not> typeof_string (arg0 args) then 0 else 1)
       \<and> sinks (snd (initialize h doc (fresh w))) = (\<lambda>s. Hook Native)"
proof -
  have res: "res = (fst (native h s (sloppy_this h this) (forwarded s args) (world st)),
              (emit (concat (replicate (Suc n) ts)) ((hookRuntimeSinks ^^ Suc n) st))
                \<lparr>world := snd (native h s (sloppy_this h this) (forwarded s args) (world st)),
                 nativeCalls := nativeCalls st @ [(s, sloppy_this h this, forwarded s args)]\<rparr>)"
    unfolding res_def by (rule call_after_installations [OF original converts])
  have fields: "evidenceList ((hookRuntimeSinks ^^ Suc n) st) = evidenceList st"
    "evidenceIdCounter ((hookRuntimeSinks ^^ Suc n) st) = evidenceIdCounter st"
    by (rule fields_hookRuntimeSinks_pow)+
  show ?thesis
    unfolding res
    using hook_outcome_length [OF converts]
    by (simp add: emit_def fields length_stamp length_concat_replicate sinks_initialize_fresh
          del: funpow.simps replicate.simps)
qed

theorem repeated_installation_stacks_wrappers_witness:
  "sinks (fresh ()) Eval = Native
 \<and> hook_outcome demo_host (world (fresh ())) Eval (sloppy_this demo_host JUndefined)
       [JStr (lit ''1+1'')]
     = Inr [template demo_host () (lit ''eval-call'') (lit ''high'') (lit ''1+1'')
              \<lparr>loc_url = location_href demo_host (), loc_selector = None, loc_index = None,
               loc_length = None, loc_position = None\<rparr> (error_stack demo_host ())]
 \<and> fst (call_sink demo_host Eval JUndefined [JStr (lit ''1+1'')]
          ((hookRuntimeSinks ^^ Suc 2) (fresh ())))
     = Inr (JNum 2)
 \<and> nativeCalls (snd (call_sink demo_host Eval JUndefined [JStr (lit ''1+1'')]
                        ((hookRuntimeSinks ^^ Suc 2) (fresh ()))))
     = [(Eval, JObj 100, [JStr (lit ''1+1'')])]
 \<and> length (evidenceList (snd (call_sink demo_host Eval JUndefined [JStr (lit ''1+1'')]
                                  ((hookRuntimeSinks ^^ Suc 2) (fresh ()))))) = 3"
proof -
  have orig: "sinks (fresh ()) Eval = Native"
    by (rule fresh_original)
  have out: "hook_outcome demo_host (world (fresh ())) Eval (sloppy_this demo_host JUndefined)
       [JStr (lit ''1+1'')]
     = Inr [template demo_host () (lit ''eval-call'') (lit ''high'') (lit ''1+1'')
              \<lparr>loc_url = location_href demo_host (), loc_selector = None, loc_index = None,
               loc_length = None, loc_position = None\<rparr> (error_stack demo_host ())]"
    by (simp add: hook_outcome_eval_string fresh_def)
  note w = repeated_installation_stacks_wrappers
      [where h = demo_host and st = "fresh ()" and s = Eval and this = JUndefined
         and args = "[JStr (lit ''1+1'')]" and n = 2 and doc = empty_doc and w = "()",
       OF orig out]
  have win: "window_ref demo_host = 100"
    by (simp add: demo_host_def)
  have nat: "fst (native demo_host Eval (JObj 100) [JStr (lit ''1+1'')] (world (fresh ()))) = Inr (JNum 2)"
    by (simp add: demo_host_def)
  show ?thesis
    using orig out w nat
    by (simp add: fresh_def length_stamp win del: funpow.simps replicate.simps)
qed

text \<open>
  After a second run of \<open>hookRuntimeSinks\<close> in the session that \<open>initialize\<close> started,
  one call of the wrapped evaluator appends two records, not one; the original
  evaluator is called once.
\<close>

theorem second_installation_doubles_records:
  "map ev_type (evidenceList (session demo_host empty_doc
       [HookRuntimeSinks, CallSink Eval JUndefined [JStr (lit ''1+1'')]] ()))
     = [lit ''eval-call'', lit ''eval-call'']
 \<and> nativeCalls (session demo_host empty_doc
       [HookRuntimeSinks, CallSink Eval JUndefined [JStr (lit ''1+1'')]] ())
     = [(Eval, JObj 100, [JStr (lit ''1+1'')])]"
proof -
  have init: "snd (initialize demo_host empty_doc (fresh ())) = hookRuntimeSinks (fresh ())"
    by (simp add: initialize_def empty_doc_def collectStaticSignals_emit static_records_def emit_Nil)
  have win: "window_ref demo_host = 100"
    by (simp add: demo_host_def)
  note c = call_after_installations
      [where h = demo_host and st = "fresh ()" and s = Eval and this = JUndefined
         and args = "[JStr (lit ''1+1'')]" and n = 1,
       OF fresh_original hook_outcome_eval_string, simplified]
  show ?thesis
    unfolding session_def init
    by (simp add: c win) (simp add: emit_def template_def fresh_def fields_hookRuntimeSinks)
qed

section \<open>The evidence store during a session\<close>


lemma stamp_id_bounds:
  "e \<in> set (stamp n ts) \<Longrightarrow> n < ev_id e \<and> ev_id e \<le> n + length ts"
proof (induction ts arbitrary: n)
  case Nil
  then show ?case by simp
next
  case (Cons t ts)
  then show ?case
    by (fastforce dest: Cons.IH)
qed

lemma stamp_ids_sorted: "sorted_wrt (<) (map ev_id (stamp n ts))"
proof (induction ts arbitrary: n)
  case Nil
  show ?case by simp
next
  case (Cons t ts)
  have "\<forall>e \<in> set (stamp (Suc n) ts). Suc n < ev_id e"
    using stamp_id_bounds by blast
  then show ?case
    using Cons [of "Suc n"] by simp
qed

lemma stamp_snippets: "map ev_snippet (stamp n ts) = map ev_snippet ts"
  by (induction ts arbitrary: n) simp_all

lemma stamp_snippet_bound:
  assumes "list_all (\<lambda>t. length (ev_snippet t) \<le> 200) ts" and "e \<in> set (stamp n ts)"
  shows "length (ev_snippet e) \<le> 200"
proof -
  have "ev_snippet e \<in> set (map ev_snippet (stamp n ts))"
    using assms(2) by simp
  then have "ev_snippet e \<in> set (map ev_snippet ts)"
    by (simp only: stamp_snippets)
  then show ?thesis
    using assms(1) by (auto simp: list_all_iff)
qed

lemma store_ok_emit:
  assumes "store_ok st" and "list_all (\<lambda>t. length (ev_snippet t) \<le> 200) ts"
  shows "store_ok (emit ts st)"
proof -
  let ?n = "evidenceIdCounter st"
  have old: "\<forall>e \<in> set (evidenceList st). ev_id e \<le> ?n \<and> length (ev_snippet e) \<le> 200"
    using assms(1) by (simp add: store_ok_def list_all_iff)
  have new: "\<forall>e \<in> set (stamp ?n ts). ?n < ev_id e \<and> ev_id e \<le> ?n + length ts
               \<and> length (ev_snippet e) \<le> 200"
    using stamp_id_bounds stamp_snippet_bound [OF assms(2)] by blast
  have "sorted_wrt (<) (map ev_id (evidenceList st @ stamp ?n ts))"
    using assms(1) old new stamp_ids_sorted [of ?n ts]
    by (fastforce simp: store_ok_def sorted_wrt_append)
  moreover have "list_all (\<lambda>e. ev_id e \<le> ?n + length ts \<and> length (ev_snippet e) \<le> 200)
                   (evidenceList st @ stamp ?n ts)"
    using old new by (fastforce simp: list_all_iff)
  ultimately show ?thesis
    by (simp add: store_ok_def emit_def)
qed

lemma store_ok_fields:
  "store_ok (st\<lparr>world := w\<rparr>) = store_ok st"
  "store_ok (st\<lparr>nativeCalls := c\<rparr>) = store_ok st"
  "store_ok (st\<lparr>sinks := f\<rparr>) = store_ok st"
  "store_ok (st\<lparr>pendingScan := b\<rparr>) = store_ok st"
  by (simp_all add: store_ok_def)

lemma template_bound: "length (ev_snippet (template h w ty sev src loc stk)) \<le> 200"
  by (simp add: template_def)

lemma static_records_bound: "list_all (\<lambda>t. length (ev_snippet t) \<le> 200) (static_records h w doc)"
  by (auto simp: list_all_iff static_records_def element_records_def attr_records_def
        protocol_records_def script_records_def template_bound Let_def
        split: if_splits option.splits)

lemma hook_outcome_bound:
  "hook_outcome h w s this args = Inr ts \<Longrightarrow> list_all (\<lambda>t. length (ev_snippet t) \<le> 200) ts"
  by (auto simp: hook_outcome_def template_bound split: option.splits sum.splits)

lemma store_ok_collectStaticSignals: "store_ok st \<Longrightarrow> store_ok (snd (collectStaticSignals h doc st))"
  by (simp add: collectStaticSignals_emit store_ok_emit static_records_bound)

lemma store_ok_hook_record: "store_ok st \<Longrightarrow> store_ok (snd (hook_record h s this args st))"
  by (cases "hook_outcome h (world st) s this args")
     (simp_all add: hook_record_outcome store_ok_emit hook_outcome_bound)

lemma store_ok_invoke: "store_ok st \<Longrightarrow> store_ok (snd (invoke h f s this args st))"
proof (induction f arbitrary: this args st)
  case Absent
  then show ?case by simp
next
  case Native
  then show ?case by (simp add: store_ok_def split: prod.splits)
next
  case (Hook prev)
  show ?case
  proof (cases "hook_record h s (sloppy_this h this) args st")
    case (Pair r st')
    then have ok: "store_ok st'"
      using store_ok_hook_record [OF Hook.prems, of h s "sloppy_this h this" args] by simp
    show ?thesis
    proof (cases r)
      case (Inl e)
      with Pair ok show ?thesis by (simp add: Let_def)
    next
      case (Inr u)
      with Pair Hook.IH [OF ok] show ?thesis by (simp add: Let_def)
    qed
  qed
qed

lemma snippet_text_bound: "snippet_text v = Inr t \<Longrightarrow> length t \<le> 200"
  by (auto simp: snippet_text_def split: if_splits jsval.splits)

lemma store_ok_addEvidence:
  assumes "store_ok st"
  shows "store_ok (snd (addEvidence h ty sev snip loc stk st))"
proof (cases "snippet_text snip")
  case (Inl e)
  then show ?thesis
    using assms by (auto simp: addEvidence_def store_ok_def list_all_iff Let_def)
next
  case (Inr t)
  then show ?thesis
    using assms snippet_text_bound [OF Inr]
    by (auto simp: addEvidence_def store_ok_def list_all_iff Let_def sorted_wrt_append)
qed

lemma store_ok_hookRuntimeSinks: "store_ok (hookRuntimeSinks st) = store_ok st"
  by (simp add: hookRuntimeSinks_def store_ok_def Let_def)

lemma store_ok_step: "store_ok st \<Longrightarrow> store_ok (step h a st)"
  by (cases a)
     (simp_all add: call_sink_def store_ok_invoke domContentLoaded_def store_ok_collectStaticSignals
        store_ok_fields store_ok_addEvidence store_ok_hookRuntimeSinks)

lemma store_ok_fresh: "store_ok (fresh w)"
  by (simp add: store_ok_def fresh_def)

lemma store_ok_initialize: "store_ok st \<Longrightarrow> store_ok (snd (initialize h doc st))"
  by (simp add: initialize_def collectStaticSignals_emit store_ok_hookRuntimeSinks store_ok_fields
        store_ok_emit static_records_bound)

lemma store_ok_foldl: "store_ok st \<Longrightarrow> store_ok (foldl (\<lambda>st a. step h a st) st acts)"
  by (induction acts arbitrary: st) (simp_all add: store_ok_step)

lemma store_ok_session: "store_ok (session h doc acts w)"
  unfolding session_def by (intro store_ok_foldl store_ok_initialize store_ok_fresh)


lemma prefix_emit: "prefix (evidenceList st) (evidenceList (emit ts st))"
  by (simp add: emit_def)

lemma prefix_hook_record: "prefix (evidenceList st) (evidenceList (snd (hook_record h s this args st)))"
  by (cases "hook_outcome h (world st) s this args") (simp_all add: hook_record_outcome prefix_emit)

lemma prefix_invoke: "prefix (evidenceList st) (evidenceList (snd (invoke h f s this args st)))"
proof (induction f arbitrary: this args st)
  case Absent
  show ?case by simp
next
  case Native
  show ?case by (simp split: prod.splits)
next
  case (Hook prev)
  show ?case
  proof (cases "hook_record h s (sloppy_this h this) args st")
    case (Pair r st')
    then have p: "prefix (evidenceList st) (evidenceList st')"
      using prefix_hook_record [of st h s "sloppy_this h this" args] by simp
    show ?thesis
    proof (cases r)
      case (Inl e)
      with Pair p show ?thesis by (simp add: Let_def)
    next
      case (Inr u)
      have "prefix (evidenceList st') (evidenceList (snd (invoke h prev s (sloppy_this h this) (forwarded s args) st')))"
        by (rule Hook.IH)
      with Pair Inr p show ?thesis
        by (auto simp: Let_def intro: prefix_order.trans)
    qed
  qed
qed

lemma prefix_addEvidence:
  "prefix (evidenceList st) (evidenceList (snd (addEvidence h ty sev snip loc stk st)))"
  by (cases "snippet_text snip") (simp_all add: addEvidence_def Let_def)

lemma evidenceList_hookRuntimeSinks: "evidenceList (hookRuntimeSinks st) = evidenceList st"
  by (simp add: hookRuntimeSinks_def Let_def)

lemma prefix_step: "prefix (evidenceList st) (evidenceList (step h a st))"
  by (cases a)
     (simp_all add: call_sink_def prefix_invoke domContentLoaded_def collectStaticSignals_emit
        emit_def prefix_addEvidence evidenceList_hookRuntimeSinks)

lemma prefix_foldl: "prefix (evidenceList st) (evidenceList (foldl (\<lambda>st a. step h a st) st acts))"
proof (induction acts arbitrary: st)
  case Nil
  show ?case by simp
next
  case (Cons a acts)
  have "prefix (evidenceList st) (evidenceList (step h a st))"
    by (rule prefix_step)
  moreover have "prefix (evidenceList (step h a st))
                   (evidenceList (foldl (\<lambda>st a. step h a st) (step h a st) acts))"
    by (rule Cons.IH)
  ultimately show ?case
    by (auto intro: prefix_order.trans)
qed

lemma strict_sorted_distinct: "sorted_wrt (<) (xs :: nat list) \<Longrightarrow> distinct xs"
  by (induction xs) auto

text \<open>
  C5. In every page session, whatever the page and the collector do after the script
  has been loaded, the ids of the records in the evidence list increase strictly in
  the order of the list and are pairwise different; the list only grows at its end, so
  its order is the order of insertion and the id of a record is never given to a later
  one.
\<close>

theorem ids_strictly_increasing:
  "sorted_wrt (<) (map ev_id (evidenceList (session h doc acts w)))
 \<and> distinct (map ev_id (evidenceList (session h doc acts w)))
 \<and> prefix (evidenceList (session h doc acts w)) (evidenceList (session h doc (acts @ later) w))"
proof -
  have s: "sorted_wrt (<) (map ev_id (evidenceList (session h doc acts w)))"
    using store_ok_session [of h doc acts w] by (simp add: store_ok_def)
  have "session h doc (acts @ later) w = foldl (\<lambda>st a. step h a st) (session h doc acts w) later"
    by (simp add: session_def)
  then have "prefix (evidenceList (session h doc acts w)) (evidenceList (session h doc (acts @ later) w))"
    by (simp add: prefix_foldl)
  with s strict_sorted_distinct [OF s] show ?thesis
    by simp
qed

section \<open>Snippets and the defaults of addEvidence\<close>


lemma trim_Nil: "trim [] = []"
  by (simp add: trim_def)

lemma script_records_of_element:
  assumes "i < length (inlineScripts doc)"
  shows "filter (\<lambda>r. ev_type r = lit ''inline-script'' \<and> location_index r = Some i)
           (static_records h w doc) = script_records h w (inlineScripts doc ! i) i"
proof -
  let ?P = "\<lambda>r. ev_type r = lit ''inline-script'' \<and> location_index r = Some i"
  have a: "filter ?P (concat (map (\<lambda>(j, e). element_records h w e j) (List.enumerate 0 (allElements doc)))) = []"
    by (rule filter_concat_enumerate_never) (use type_names_distinct in \<open>auto dest: element_records_fields\<close>)
  have b: "filter ?P (concat (map (\<lambda>(j, e). protocol_records h w e j) (List.enumerate 0 (jsProtocolElements doc)))) = []"
    by (rule filter_concat_enumerate_never) (use type_names_distinct in \<open>auto dest: protocol_records_fields\<close>)
  have c: "filter ?P (concat (map (\<lambda>(j, e). script_records h w e j) (List.enumerate 0 (inlineScripts doc))))
             = script_records h w (inlineScripts doc ! (i - 0)) i"
    by (rule filter_concat_enumerate) (use assms in \<open>auto dest: script_records_fields\<close>)
  show ?thesis
    unfolding static_records_def using a b c by simp
qed

lemma script_record_found:
  assumes "i < length (inlineScripts doc)"
      and "script_content (inlineScripts doc ! i) = Some c" and "trim c \<noteq> []"
  shows "map (\<lambda>r. (ev_snippet r, ev_location r))
           (filter (\<lambda>r. ev_type r = lit ''inline-script'' \<and> location_index r = Some i)
              (drop (length (evidenceList st)) (evidenceList (snd (collectStaticSignals h doc st)))))
         = [(take 200 c,
             LocObj \<lparr>loc_url = location_href h (world st),
                     loc_selector = Some (JStr (lit ''script:not([src])'')),
                     loc_index = Some i, loc_length = Some (length c), loc_position = None\<rparr>)]"
proof -
  let ?P = "\<lambda>r. ev_type r = lit ''inline-script'' \<and> location_index r = Some i"
  let ?f = "\<lambda>r. (ev_snippet r, ev_location r)"
  have ne: "c \<noteq> []"
    using assms(3) trim_Nil by auto
  have "map ?f (filter ?P (stamp (evidenceIdCounter st) (static_records h (world st) doc)))
          = map ?f (filter ?P (static_records h (world st) doc))"
    by (rule map_filter_stamp) (simp_all add: location_index_def)
  also have "\<dots> = map ?f (script_records h (world st) (inlineScripts doc ! i) i)"
    by (simp only: script_records_of_element [OF assms(1)])
  also have "\<dots> = [(take 200 c,
             LocObj \<lparr>loc_url = location_href h (world st),
                     loc_selector = Some (JStr (lit ''script:not([src])'')),
                     loc_index = Some i, loc_length = Some (length c), loc_position = None\<rparr>)]"
    using assms(2,3) ne by (simp add: script_records_def template_def)
  finally show ?thesis
    by (simp only: new_records_after_scan)
qed

lemma addEvidence_result:
  "snippet_text snippet = Inr text \<Longrightarrow>
     addEvidence h ty sev snippet location stk st
       = (Inr \<lparr>ev_id = Suc (evidenceIdCounter st), ev_time = date_now h (world st),
               ev_type = ty, ev_severity = sev,
               ev_location = (if loc_truthy location then location else default_location h st),
               ev_snippet = text,
               ev_stack = (if stk = JUndefined then JNull else stk)\<rparr>,
          st\<lparr>evidenceIdCounter := Suc (evidenceIdCounter st),
             evidenceList := evidenceList st @
               [\<lparr>ev_id = Suc (evidenceIdCounter st), ev_time = date_now h (world st),
                 ev_type = ty, ev_severity = sev,
                 ev_location = (if loc_truthy location then location else default_location h st),
                 ev_snippet = text,
                 ev_stack = (if stk = JUndefined then JNull else stk)\<rparr>]\<rparr>)"
  by (simp add: addEvidence_def Let_def)

lemma addEvidence_throws:
  "snippet_text snippet = Inl e \<Longrightarrow>
     addEvidence h ty sev snippet location stk st
       = (Inl e, st\<lparr>evidenceIdCounter := Suc (evidenceIdCounter st)\<rparr>)"
  by (simp add: addEvidence_def Let_def)

text \<open>
  C4. No record in the evidence list of a session has a snippet longer than 200 code
  units, and neither has any record that \<open>addEvidence\<close> returns. A snippet source
  longer than 200 code units is stored as its first 200 code units, exactly 200 of
  them. The record of the scanner for an inline script with content \<open>c\<close> has the
  first 200 code units of \<open>c\<close> as snippet and the full length of \<open>c\<close> in its
  location.
\<close>

theorem snippet_capped_at_200:
  "list_all (\<lambda>r. length (ev_snippet r) \<le> 200) (evidenceList (session h doc acts w))
 \<and> (fst (addEvidence h ty sev snippet location stk st) = Inr e \<longrightarrow> length (ev_snippet e) \<le> 200)
 \<and> (length src > 200 \<longrightarrow>
      (\<exists>r. addEvidence h ty sev (JStr src) location stk st
             = (Inr r, st\<lparr>evidenceIdCounter := Suc (evidenceIdCounter st),
                           evidenceList := evidenceList st @ [r]\<rparr>)
           \<and> ev_snippet r = take 200 src \<and> length (ev_snippet r) = 200))
 \<and> (i < length (inlineScripts doc) \<and> script_content (inlineScripts doc ! i) = Some c \<and> trim c \<noteq> []
     \<longrightarrow> map (\<lambda>r. (ev_snippet r, ev_location r))
           (filter (\<lambda>r. ev_type r = lit ''inline-script'' \<and> location_index r = Some i)
              (drop (length (evidenceList st)) (evidenceList (snd (collectStaticSignals h doc st)))))
         = [(take 200 c,
             LocObj \<lparr>loc_url = location_href h (world st),
                     loc_selector = Some (JStr (lit ''script:not([src])'')),
                     loc_index = Some i, loc_length = Some (length c), loc_position = None\<rparr>)])"
proof -
  have 1: "list_all (\<lambda>r. length (ev_snippet r) \<le> 200) (evidenceList (session h doc acts w))"
    using store_ok_session [of h doc acts w] by (simp add: store_ok_def list_all_iff)
  have 2: "length (ev_snippet e) \<le> 200"
    if "fst (addEvidence h ty sev snippet location stk st) = Inr e"
  proof (cases "snippet_text snippet")
    case (Inl x)
    with that show ?thesis by (simp add: addEvidence_throws)
  next
    case (Inr t)
    with that snippet_text_bound [OF Inr] show ?thesis by (auto simp: addEvidence_result)
  qed
  have 3: "\<exists>r. addEvidence h ty sev (JStr src) location stk st
             = (Inr r, st\<lparr>evidenceIdCounter := Suc (evidenceIdCounter st),
                           evidenceList := evidenceList st @ [r]\<rparr>)
           \<and> ev_snippet r = take 200 src \<and> length (ev_snippet r) = 200"
    if "length src > 200"
    using that by (simp add: addEvidence_result [OF snippet_text_JStr])
  show ?thesis
    using 1 2 3 script_record_found [of i doc c st h] by blast
qed

lemma trim_script_text: "trim script_text = script_text"
  by (simp add: trim_def script_text_def is_space_def)

lemma script_text_facts: "length script_text = 250" "script_text \<noteq> []"
  by (auto simp: script_text_def)

theorem snippet_capped_at_200_witness:
  "(0::nat) < length (inlineScripts demo_doc)
 \<and> script_content (inlineScripts demo_doc ! 0) = Some script_text
 \<and> trim script_text \<noteq> []
 \<and> length script_text = 250
 \<and> map (\<lambda>r. (length (ev_snippet r), ev_snippet r, ev_location r))
      (filter (\<lambda>r. ev_type r = lit ''inline-script'' \<and> location_index r = Some 0)
         (drop (length (evidenceList (fresh ())))
            (evidenceList (snd (collectStaticSignals demo_host demo_doc (fresh ()))))))
     = [(200, take 200 script_text,
         LocObj \<lparr>loc_url = lit ''https://example.com/'',
                 loc_selector = Some (JStr (lit ''script:not([src])'')),
                 loc_index = Some 0, loc_length = Some 250, loc_position = None\<rparr>)]"
proof -
  have a: "(0::nat) < length (inlineScripts demo_doc)"
    by (simp add: demo_doc_def)
  have b: "script_content (inlineScripts demo_doc ! 0) = Some script_text"
    by (simp add: demo_doc_def demo_script_def script_content_def script_text_facts)
  have c: "trim script_text \<noteq> []"
    by (simp add: trim_script_text script_text_facts)
  note w = snippet_capped_at_200 [where i = 0 and doc = demo_doc and c = script_text
      and h = demo_host and st = "fresh ()"]
  then have "map (\<lambda>r. (ev_snippet r, ev_location r))
      (filter (\<lambda>r. ev_type r = lit ''inline-script'' \<and> location_index r = Some 0)
         (drop (length (evidenceList (fresh ())))
            (evidenceList (snd (collectStaticSignals demo_host demo_doc (fresh ()))))))
     = [(take 200 script_text,
         LocObj \<lparr>loc_url = location_href demo_host (world (fresh ())),
                 loc_selector = Some (JStr (lit ''script:not([src])'')),
                 loc_index = Some 0, loc_length = Some (length script_text), loc_position = None\<rparr>)]"
    using a b c by blast
  then have "map (\<lambda>p. (length (fst p), fst p, snd p)) (map (\<lambda>r. (ev_snippet r, ev_location r))
      (filter (\<lambda>r. ev_type r = lit ''inline-script'' \<and> location_index r = Some 0)
         (drop (length (evidenceList (fresh ())))
            (evidenceList (snd (collectStaticSignals demo_host demo_doc (fresh ())))))))
     = [(200, take 200 script_text,
         LocObj \<lparr>loc_url = lit ''https://example.com/'',
                 loc_selector = Some (JStr (lit ''script:not([src])'')),
                 loc_index = Some 0, loc_length = Some 250, loc_position = None\<rparr>)]"
    by (simp only: list.map fst_conv snd_conv) (simp add: script_text_facts demo_host_def)
  then show ?thesis
    using a b c by (simp add: script_text_facts comp_def)
qed


text \<open>
  C10. \<open>addEvidence\<close> does not fail when optional inputs are missing: if the snippet
  is \<open>undefined\<close>, \<open>null\<close> or a string, it appends and returns a record; the stored
  snippet is the empty string when the snippet is \<open>undefined\<close>, \<open>null\<close> or empty (and
  the first 200 code units of the string otherwise); the stored location is the page
  URL with a \<open>null\<close> selector when the location is omitted or \<open>null\<close>; and the stored
  stack is \<open>null\<close> when no stack is supplied.
\<close>

theorem addEvidence_defaults:
  fixes h :: "'w host" and st :: "'w page" and ty sev :: jsstring and snippet stk :: jsval
    and location :: locarg
  assumes "snippet = JUndefined \<or> snippet = JNull \<or> snippet = JStr src"
  defines "res \<equiv> addEvidence h ty sev snippet location stk st"
  shows "\<exists>e. fst res = Inr e
           \<and> snd res = st\<lparr>evidenceIdCounter := Suc (evidenceIdCounter st),
                            evidenceList := evidenceList st @ [e]\<rparr>
           \<and> ev_snippet e = (if snippet = JStr src then take 200 src else [])
           \<and> (snippet = JUndefined \<or> snippet = JNull \<or> snippet = JStr [] \<longrightarrow> ev_snippet e = [])
           \<and> (location = LocPrim JUndefined \<or> location = LocPrim JNull
                \<longrightarrow> ev_location e = LocObj \<lparr>loc_url = location_href h (world st),
                                               loc_selector = Some JNull, loc_index = None,
                                               loc_length = None, loc_position = None\<rparr>)
           \<and> (stk = JUndefined \<longrightarrow> ev_stack e = JNull)"
proof -
  have "snippet_text snippet = Inr (if snippet = JStr src then take 200 src else [])"
    using assms(1) by (auto simp: snippet_text_def)
  from addEvidence_result [OF this, of h ty sev location stk st] show ?thesis
    unfolding res_def by (auto simp: default_location_def)
qed

theorem addEvidence_defaults_witness:
  "(JNull = JUndefined \<or> JNull = JNull \<or> JNull = JStr [])
 \<and> addEvidence demo_host (lit ''inline-script'') (lit ''low'') JNull (LocPrim JUndefined) JUndefined (fresh ())
     = (Inr \<lparr>ev_id = 1, ev_time = lit ''2024-01-01T00:00:00.000Z'', ev_type = lit ''inline-script'',
             ev_severity = lit ''low'',
             ev_location = LocObj \<lparr>loc_url = lit ''https://example.com/'', loc_selector = Some JNull,
                                    loc_index = None, loc_length = None, loc_position = None\<rparr>,
             ev_snippet = [], ev_stack = JNull\<rparr>,
        (fresh ())\<lparr>evidenceIdCounter := 1,
                    evidenceList :=
                      [\<lparr>ev_id = 1, ev_time = lit ''2024-01-01T00:00:00.000Z'',
                        ev_type = lit ''inline-script'', ev_severity = lit ''low'',
                        ev_location = LocObj \<lparr>loc_url = lit ''https://example.com/'',
                                               loc_selector = Some JNull, loc_index = None,
                                               loc_length = None, loc_position = None\<rparr>,
                        ev_snippet = [], ev_stack = JNull\<rparr>]\<rparr>)"
proof -
  have a: "JNull = JUndefined \<or> JNull = JNull \<or> JNull = JStr []"
    by simp
  obtain e where e: "fst (addEvidence demo_host (lit ''inline-script'') (lit ''low'') JNull
                            (LocPrim JUndefined) JUndefined (fresh ())) = Inr e"
      and s: "snd (addEvidence demo_host (lit ''inline-script'') (lit ''low'') JNull
                            (LocPrim JUndefined) JUndefined (fresh ()))
               = (fresh ())\<lparr>evidenceIdCounter := Suc (evidenceIdCounter (fresh ())),
                            evidenceList := evidenceList (fresh ()) @ [e]\<rparr>"
      and sn: "ev_snippet e = []"
      and lo: "ev_location e = LocObj \<lparr>loc_url = location_href demo_host (world (fresh ())),
                                               loc_selector = Some JNull, loc_index = None,
                                               loc_length = None, loc_position = None\<rparr>"
      and sk: "ev_stack e = JNull"
    using addEvidence_defaults [where h = demo_host and ty = "lit ''inline-script''"
        and sev = "lit ''low''" and location = "LocPrim JUndefined" and stk = JUndefined
        and st = "fresh ()", OF a]
    by auto
  have rest: "ev_id e = 1 \<and> ev_time e = lit ''2024-01-01T00:00:00.000Z''
              \<and> ev_type e = lit ''inline-script'' \<and> ev_severity e = lit ''low''"
    using e by (auto simp: addEvidence_def snippet_text_def Let_def demo_host_def fresh_def)
  have eq: "e = \<lparr>ev_id = 1, ev_time = lit ''2024-01-01T00:00:00.000Z'', ev_type = lit ''inline-script'',
             ev_severity = lit ''low'',
             ev_location = LocObj \<lparr>loc_url = lit ''https://example.com/'', loc_selector = Some JNull,
                                    loc_index = None, loc_length = None, loc_position = None\<rparr>,
             ev_snippet = [], ev_stack = JNull\<rparr>"
    using rest sn lo sk by (cases e) (simp add: demo_host_def)
  show ?thesis
    using e s unfolding eq by (simp add: prod_eq_iff fresh_def)
qed

end
